theory Spec2Isabelle
  imports Main
begin

section \<open>Data model (main.go)\<close>

text \<open>
  The repository holds several drafts of one scraper. \<^verbatim>\<open>src/main.go\<close> is the variant
  the terminal UI calls (\<^verbatim>\<open>ScrapeEvents\<close>, \<^verbatim>\<open>ShouldScrape\<close>, \<^verbatim>\<open>LoadCachedEvents\<close>);
  \<^verbatim>\<open>src/scraper.go\<close> is an older command-line draft. Both are embedded below, each under
  the names of its own file.

  A Go \<^verbatim>\<open>string\<close> is a sequence of bytes: it is modelled as \<^typ>\<open>string\<close>, a list of
  8-bit characters. A Go \<^verbatim>\<open>int\<close> that only counts or is compared is an \<^typ>\<open>int\<close>.
\<close>

record Event =
  Title :: string
  Date :: string
  Location :: string
  Category :: string
  Description :: string

text \<open>
  \<^verbatim>\<open>time.Time\<close> is modelled as the instant it denotes, in nanoseconds since the Unix
  epoch; a \<^verbatim>\<open>time.Duration\<close> is a signed 64-bit count of nanoseconds.
\<close>

type_synonym Time = int
type_synonym Duration = int

record CachedData =
  LastScraped :: Time
  Events :: "Event list"


section \<open>The parts of the Go library the scraper calls\<close>

subsection \<open>Bytes and UTF-8 (package unicode/utf8)\<close>

definition byte :: "char \<Rightarrow> nat" where
  "byte c = of_char c"

type_synonym rune = nat

definition RuneError :: rune where
  "RuneError = 0xFFFD"

definition continuation :: "char \<Rightarrow> bool" where
  "continuation c = (0x80 \<le> byte c \<and> byte c \<le> 0xBF)"

text \<open>
  The lowest and highest second byte that may follow a first byte of a three- or
  four-byte sequence (the \<^verbatim>\<open>acceptRanges\<close> table): they exclude overlong forms, the
  surrogates and everything above U+10FFFF.
\<close>

definition second_lo :: "nat \<Rightarrow> nat" where
  "second_lo b0 = (if b0 = 0xE0 then 0xA0 else if b0 = 0xF0 then 0x90 else 0x80)"

definition second_hi :: "nat \<Rightarrow> nat" where
  "second_hi b0 = (if b0 = 0xED then 0x9F else if b0 = 0xF4 then 0x8F else 0xBF)"

definition second_ok :: "nat \<Rightarrow> char \<Rightarrow> bool" where
  "second_ok b0 c = (second_lo b0 \<le> byte c \<and> byte c \<le> second_hi b0)"

text \<open>
  \<^verbatim>\<open>utf8.DecodeRuneInString\<close>: the first rune of the string and its width in bytes;
  \<^verbatim>\<open>(RuneError, 0)\<close> on the empty string and \<^verbatim>\<open>(RuneError, 1)\<close> on an invalid
  or truncated sequence.
\<close>

fun DecodeRune :: "string \<Rightarrow> rune \<times> nat" where
  "DecodeRune [] = (RuneError, 0)"
| "DecodeRune (c0 # rest) =
     (let b0 = byte c0 in
      if b0 < 0x80 then (b0, 1)
      else if 0xC2 \<le> b0 \<and> b0 \<le> 0xDF then
        (case rest of
           c1 # _ \<Rightarrow>
             if continuation c1 then ((b0 mod 32) * 64 + byte c1 mod 64, 2)
             else (RuneError, 1)
         | _ \<Rightarrow> (RuneError, 1))
      else if 0xE0 \<le> b0 \<and> b0 \<le> 0xEF then
        (case rest of
           c1 # c2 # _ \<Rightarrow>
             if second_ok b0 c1 \<and> continuation c2
             then ((b0 mod 16) * 4096 + (byte c1 mod 64) * 64 + byte c2 mod 64, 3)
             else (RuneError, 1)
         | _ \<Rightarrow> (RuneError, 1))
      else if 0xF0 \<le> b0 \<and> b0 \<le> 0xF4 then
        (case rest of
           c1 # c2 # c3 # _ \<Rightarrow>
             if second_ok b0 c1 \<and> continuation c2 \<and> continuation c3
             then ((b0 mod 8) * 262144 + (byte c1 mod 64) * 4096
                     + (byte c2 mod 64) * 64 + byte c3 mod 64, 4)
             else (RuneError, 1)
         | _ \<Rightarrow> (RuneError, 1))
      else (RuneError, 1))"

text \<open>\<^verbatim>\<open>utf8.RuneStart\<close>: the byte is not a continuation byte.\<close>

definition RuneStart :: "char \<Rightarrow> bool" where
  "RuneStart c = (\<not> continuation c)"

text \<open>
  The backward scan of \<^verbatim>\<open>utf8.DecodeLastRuneInString\<close>: from \<open>start\<close> down to \<open>lim\<close>,
  stop at the first byte that starts a rune; below \<open>lim\<close> the loop ends by itself.
\<close>

function scan_back :: "string \<Rightarrow> int \<Rightarrow> int \<Rightarrow> int" where
  "scan_back s lim start =
     (if start \<ge> lim \<and> start \<ge> 0 then
        (if RuneStart (s ! nat start) then start else scan_back s lim (start - 1))
      else start)"
  by pat_completeness auto
termination
  by (relation "measure (\<lambda>(s, lim, start). nat (start + 1))") auto

declare scan_back.simps [simp del]

definition DecodeLastRune :: "string \<Rightarrow> rune \<times> nat" where
  "DecodeLastRune s =
     (let end = int (length s) in
      if end = 0 then (RuneError, 0)
      else
        let r = byte (s ! nat (end - 1)) in
        if r < 0x80 then (r, 1)
        else
          let lim = (if end - 4 < 0 then 0 else end - 4);
              start0 = scan_back s lim (end - 2);
              start = (if start0 < 0 then 0 else start0);
              (r', size) = DecodeRune (drop (nat start) s)
          in if start + int size \<noteq> end then (RuneError, 1) else (r', size))"


subsection \<open>Package strings\<close>

text \<open>\<^verbatim>\<open>unicode.IsSpace\<close>: the code points with the Unicode property White_Space.\<close>

definition IsSpace :: "rune \<Rightarrow> bool" where
  "IsSpace r =
     ((0x09 \<le> r \<and> r \<le> 0x0D) \<or> r = 0x20 \<or> r = 0x85 \<or> r = 0xA0 \<or> r = 0x1680
      \<or> (0x2000 \<le> r \<and> r \<le> 0x200A) \<or> r = 0x2028 \<or> r = 0x2029 \<or> r = 0x202F
      \<or> r = 0x205F \<or> r = 0x3000)"

text \<open>
  \<^verbatim>\<open>strings.TrimLeftFunc(s, unicode.IsSpace)\<close>: runes are taken off the front while
  they are white space. A rune of a non-empty string is at least one byte wide, so the
  rest after a rune of width \<open>n\<close> is the tail without its first \<open>n - 1\<close> bytes.
\<close>

fun TrimLeftSpace :: "string \<Rightarrow> string" where
  "TrimLeftSpace [] = []"
| "TrimLeftSpace (c # cs) =
     (if IsSpace (fst (DecodeRune (c # cs)))
      then TrimLeftSpace (drop (snd (DecodeRune (c # cs)) - 1) cs)
      else c # cs)"

text \<open>
  \<^verbatim>\<open>strings.TrimRightFunc(s, unicode.IsSpace)\<close>: the same from the end, with
  \<^verbatim>\<open>DecodeLastRuneInString\<close>.
\<close>

function TrimRightSpace :: "string \<Rightarrow> string" where
  "TrimRightSpace s =
     (if s = [] then []
      else if IsSpace (fst (DecodeLastRune s))
      then TrimRightSpace (take (length (butlast s) - (snd (DecodeLastRune s) - 1)) (butlast s))
      else s)"
  by pat_completeness auto
termination
  by (relation "measure length") auto

declare TrimRightSpace.simps [simp del]

text \<open>
  \<^verbatim>\<open>strings.TrimSpace\<close> removes all leading and trailing white space, as defined by
  Unicode: it is \<^verbatim>\<open>TrimRightFunc(TrimLeftFunc(s, unicode.IsSpace), unicode.IsSpace)\<close>.
\<close>

definition TrimSpace :: "string \<Rightarrow> string" where
  "TrimSpace s = TrimRightSpace (TrimLeftSpace s)"

text \<open>
  \<^verbatim>\<open>strings.ToLower\<close>, on the ASCII letters. Go maps the bytes of a string that is not
  pure ASCII through the Unicode case tables; no code point outside ASCII has one of the
  letters of \<^verbatim>\<open>free\<close> or the letter \<^verbatim>\<open>y\<close> as its lower case, so the comparisons the
  scrapers make with the result (with \<^verbatim>\<open>"free"\<close>, with \<^verbatim>\<open>"y"\<close>) are the same.
\<close>

definition lower_byte :: "char \<Rightarrow> char" where
  "lower_byte c = (if 0x41 \<le> byte c \<and> byte c \<le> 0x5A then char_of (byte c + 0x20) else c)"

definition ToLower :: "string \<Rightarrow> string" where
  "ToLower s = map lower_byte s"

text \<open>\<^verbatim>\<open>strings.Join\<close>.\<close>

fun Join :: "string list \<Rightarrow> string \<Rightarrow> string" where
  "Join [] sep = []"
| "Join [a] sep = a"
| "Join (a # b # rest) sep = a @ sep @ Join (b # rest) sep"


subsection \<open>Package time\<close>

text \<open>
  \<^verbatim>\<open>time.Hour\<close> in nanoseconds, and the bounds of \<^verbatim>\<open>time.Duration\<close> (an int64).
\<close>

definition Hour :: Duration where
  "Hour = 3600 * 1000000000"

definition maxDuration :: Duration where
  "maxDuration = 2 ^ 63 - 1"

definition minDuration :: Duration where
  "minDuration = - (2 ^ 63)"

text \<open>
  \<^verbatim>\<open>t.Sub(u)\<close>: the duration \<open>t - u\<close>; if it does not fit a \<^verbatim>\<open>Duration\<close>, the largest
  or the smallest duration is returned instead.
\<close>

definition Sub :: "Time \<Rightarrow> Time \<Rightarrow> Duration" where
  "Sub t u =
     (let d = t - u in
      if d > maxDuration then maxDuration
      else if d < minDuration then minDuration
      else d)"

text \<open>The zero \<^verbatim>\<open>time.Time\<close>: January 1 of year 1, 00:00:00 UTC.\<close>

definition zeroTime :: Time where
  "zeroTime = - 62135596800 * 1000000000"

text \<open>
  The text of a timestamp (RFC 3339, written by \<^verbatim>\<open>Time.MarshalJSON\<close> and read by
  \<^verbatim>\<open>Time.UnmarshalJSON\<close>) is not modelled: the two functions are parameters of
  the model. \<^verbatim>\<open>MarshalJSON\<close> fails for a year outside 0..9999, \<^verbatim>\<open>UnmarshalJSON\<close>
  for a text that is not a timestamp.
\<close>

record timefmt =
  MarshalJSON :: "Time \<Rightarrow> string option"
  UnmarshalJSON :: "string \<Rightarrow> Time option"


subsection \<open>Package encoding/json\<close>

text \<open>
  A JSON text is modelled by the value it denotes. The concrete syntax (white space,
  escapes, indentation) stays inside the library; a file whose bytes are not a JSON text
  is \<open>Malformed\<close> below.
\<close>

datatype json =
    JNull
  | JBool bool
  | JNumber string
  | JString string
  | JArray "json list"
  | JObject "(string \<times> json) list"

text \<open>
  The encoder coerces a string to valid UTF-8: every byte that does not start a valid
  sequence is replaced by U+FFFD (the bytes EF BF BD); valid sequences are kept.
\<close>

definition replacement :: string where
  "replacement = [CHR 0xEF, CHR 0xBF, CHR 0xBD]"

fun coerceUTF8 :: "string \<Rightarrow> string" where
  "coerceUTF8 [] = []"
| "coerceUTF8 (c # cs) =
     (let n = snd (DecodeRune (c # cs)) in
      if fst (DecodeRune (c # cs)) = RuneError \<and> n = 1
      then replacement @ coerceUTF8 cs
      else (c # take (n - 1) cs) @ coerceUTF8 (drop (n - 1) cs))"

text \<open>\<^verbatim>\<open>utf8.ValidString\<close>.\<close>

fun ValidString :: "string \<Rightarrow> bool" where
  "ValidString [] = True"
| "ValidString (c # cs) =
     (let n = snd (DecodeRune (c # cs)) in
      \<not> (fst (DecodeRune (c # cs)) = RuneError \<and> n = 1) \<and> ValidString (drop (n - 1) cs))"

text \<open>
  Encoding follows the struct tags: \<^verbatim>\<open>title\<close>, \<^verbatim>\<open>date\<close>, \<^verbatim>\<open>location\<close>,
  \<^verbatim>\<open>category\<close>, \<^verbatim>\<open>description\<close> for an \<^verbatim>\<open>Event\<close>; \<^verbatim>\<open>last_scraped\<close>, \<^verbatim>\<open>events\<close>
  for \<^verbatim>\<open>CachedData\<close>. A nil slice is encoded as \<^verbatim>\<open>null\<close>; the empty list stands for
  the nil slice, the only empty slice the scraper builds.
\<close>

definition encode_Event :: "Event \<Rightarrow> json" where
  "encode_Event e =
     JObject
       [(''title'', JString (coerceUTF8 (Title e))),
        (''date'', JString (coerceUTF8 (Date e))),
        (''location'', JString (coerceUTF8 (Location e))),
        (''category'', JString (coerceUTF8 (Category e))),
        (''description'', JString (coerceUTF8 (Description e)))]"

definition encode_Events :: "Event list \<Rightarrow> json" where
  "encode_Events es = (if es = [] then JNull else JArray (map encode_Event es))"

definition encode_CachedData :: "timefmt \<Rightarrow> CachedData \<Rightarrow> json option" where
  "encode_CachedData tf d =
     (case MarshalJSON tf (LastScraped d) of
        None \<Rightarrow> None
      | Some t \<Rightarrow> Some (JObject [(''last_scraped'', JString t), (''events'', encode_Events (Events d))]))"

text \<open>
  Decoding into a struct: \<^verbatim>\<open>null\<close> leaves the target as it is; an object sets, key
  by key, the field whose tag matches the key, skips unknown keys and lets a later
  duplicate work on what an earlier one left; any other value is an error. A value of
  the wrong type for its field is an error (\<^verbatim>\<open>Decode\<close> then returns a non-nil error,
  and the callers drop the data).

  A key matches a tag when the two are equal under Unicode simple case folding
  (\<^verbatim>\<open>foldName\<close>). The tags are ASCII, and the characters that fold to an ASCII
  letter are the ASCII letters, U+017F (the bytes C5 BF, to \<^verbatim>\<open>s\<close>) and U+212A (the
  bytes E2 84 AA, to \<^verbatim>\<open>k\<close>): the model folds these to the lower-case letter and keeps
  every other byte, so a key matches a tag exactly when its folded form is the tag.
\<close>

fun foldName :: "string \<Rightarrow> string" where
  "foldName [] = []"
| "foldName (c # cs) =
     (if c = CHR 0xC5 \<and> take 1 cs = [CHR 0xBF] then CHR ''s'' # foldName (drop 1 cs)
      else if c = CHR 0xE2 \<and> take 2 cs = [CHR 0x84, CHR 0xAA]
      then CHR ''k'' # foldName (drop 2 cs)
      else lower_byte c # foldName cs)"

definition decode_string :: "json \<Rightarrow> string \<Rightarrow> string option" where
  "decode_string j old =
     (case j of JString s \<Rightarrow> Some s | JNull \<Rightarrow> Some old | _ \<Rightarrow> None)"

definition zeroEvent :: Event where
  "zeroEvent = \<lparr>Title = [], Date = [], Location = [], Category = [], Description = []\<rparr>"

fun decode_Event_fields :: "(string \<times> json) list \<Rightarrow> Event \<Rightarrow> Event option" where
  "decode_Event_fields [] e = Some e"
| "decode_Event_fields ((k, v) # kvs) e =
     (let key = foldName k in
      if key = ''title'' then
        (case decode_string v (Title e) of None \<Rightarrow> None
         | Some s \<Rightarrow> decode_Event_fields kvs (e\<lparr>Title := s\<rparr>))
      else if key = ''date'' then
        (case decode_string v (Date e) of None \<Rightarrow> None
         | Some s \<Rightarrow> decode_Event_fields kvs (e\<lparr>Date := s\<rparr>))
      else if key = ''location'' then
        (case decode_string v (Location e) of None \<Rightarrow> None
         | Some s \<Rightarrow> decode_Event_fields kvs (e\<lparr>Location := s\<rparr>))
      else if key = ''category'' then
        (case decode_string v (Category e) of None \<Rightarrow> None
         | Some s \<Rightarrow> decode_Event_fields kvs (e\<lparr>Category := s\<rparr>))
      else if key = ''description'' then
        (case decode_string v (Description e) of None \<Rightarrow> None
         | Some s \<Rightarrow> decode_Event_fields kvs (e\<lparr>Description := s\<rparr>))
      else decode_Event_fields kvs e)"

definition decode_Event :: "json \<Rightarrow> Event \<Rightarrow> Event option" where
  "decode_Event j e =
     (case j of JNull \<Rightarrow> Some e | JObject kvs \<Rightarrow> decode_Event_fields kvs e | _ \<Rightarrow> None)"

text \<open>
  A JSON array is decoded into a slice item by item: item \<open>i\<close> goes into element \<open>i\<close>
  of the array behind the slice where that array has one (it has, when an earlier
  occurrence of the key filled it), into a zero \<^verbatim>\<open>Event\<close> otherwise, and what the item
  does not mention stays as it was. Afterwards the slice has one element per item, and
  the array behind it keeps what it held beyond them. An empty array makes a new empty
  slice, \<^verbatim>\<open>null\<close> the nil slice. The list \<open>backing\<close> is the array behind the slice.
\<close>

fun decode_Event_list :: "json list \<Rightarrow> Event list \<Rightarrow> Event list option" where
  "decode_Event_list [] backing = Some []"
| "decode_Event_list (j # js) backing =
     (case decode_Event j (case backing of [] \<Rightarrow> zeroEvent | e # _ \<Rightarrow> e) of
        None \<Rightarrow> None
      | Some e \<Rightarrow>
          (case decode_Event_list js (tl backing) of
             None \<Rightarrow> None
           | Some es \<Rightarrow> Some (e # es)))"

definition decode_Events :: "json \<Rightarrow> Event list \<Rightarrow> (Event list \<times> Event list) option" where
  "decode_Events j backing =
     (case j of
        JNull \<Rightarrow> Some ([], [])
      | JArray js \<Rightarrow>
          if js = [] then Some ([], [])
          else (case decode_Event_list js backing of
                  None \<Rightarrow> None
                | Some es \<Rightarrow> Some (es, es @ drop (length es) backing))
      | _ \<Rightarrow> None)"

definition decode_Time :: "timefmt \<Rightarrow> json \<Rightarrow> Time \<Rightarrow> Time option" where
  "decode_Time tf j old =
     (case j of JNull \<Rightarrow> Some old | JString s \<Rightarrow> UnmarshalJSON tf s | _ \<Rightarrow> None)"

fun decode_CachedData_fields ::
  "timefmt \<Rightarrow> (string \<times> json) list \<Rightarrow> CachedData \<Rightarrow> Event list \<Rightarrow> CachedData option" where
  "decode_CachedData_fields tf [] d backing = Some d"
| "decode_CachedData_fields tf ((k, v) # kvs) d backing =
     (let key = foldName k in
      if key = ''last_scraped'' then
        (case decode_Time tf v (LastScraped d) of None \<Rightarrow> None
         | Some t \<Rightarrow> decode_CachedData_fields tf kvs (d\<lparr>LastScraped := t\<rparr>) backing)
      else if key = ''events'' then
        (case decode_Events v backing of None \<Rightarrow> None
         | Some (es, backing') \<Rightarrow> decode_CachedData_fields tf kvs (d\<lparr>Events := es\<rparr>) backing')
      else decode_CachedData_fields tf kvs d backing)"

definition zeroCachedData :: CachedData where
  "zeroCachedData = \<lparr>LastScraped = zeroTime, Events = []\<rparr>"

text \<open>\<^verbatim>\<open>decoder.Decode(&cachedData)\<close> on a fresh \<^verbatim>\<open>var cachedData CachedData\<close>.\<close>

definition decode_CachedData :: "timefmt \<Rightarrow> json \<Rightarrow> CachedData option" where
  "decode_CachedData tf j =
     (case j of
        JNull \<Rightarrow> Some zeroCachedData
      | JObject kvs \<Rightarrow> decode_CachedData_fields tf kvs zeroCachedData []
      | _ \<Rightarrow> None)"


subsection \<open>The process and its environment (packages os, log, path/filepath)\<close>

text \<open>
  Errors are values. \<^verbatim>\<open>fmt.Errorf("text: %w", err)\<close> wraps an error in a message.
\<close>

datatype error =
    ErrNotExist
  | ErrPermission
  | ErrMarshal
  | ErrWrite
  | ErrSyntax
  | ErrUnmarshal
  | ErrTransport
  | ErrStatus nat
  | Errorf string error

text \<open>What the standard logger has written to standard error.\<close>

datatype log_entry =
    Visiting
  | ErrorVisiting error
  | EmptyTitle
  | Loaded nat
  | Fatal

text \<open>
  The content of a file: a JSON text, or bytes that are not one (an empty or truncated
  file among them).
\<close>

datatype file_content = Malformed | JSONText json

text \<open>
  What the events page answers to the GET request. An \<open>HTMLElement\<close> is one element
  selected by \<^verbatim>\<open>.msl_eventlist .event_item\<close>, as the handler of main.go reads it: the
  text of its descendants selected by \<^verbatim>\<open>a.msl_event_name\<close>, \<^verbatim>\<open>dd.msl_event_time\<close>,
  \<^verbatim>\<open>dd.msl_event_location\<close>, \<^verbatim>\<open>dd.msl_event_description\<close>, and the text of each
  element that \<^verbatim>\<open>dd.msl_event_types a\<close> selects.
\<close>

record HTMLElement =
  name_text :: string
  time_text :: string
  location_text :: string
  description_text :: string
  type_links :: "string list"

text \<open>
  A page: its event items in document order, and the same page as the handlers of
  scraper.go read it, one list per selector, in document order: the text of each
  \<^verbatim>\<open>.msl_event_name\<close>; for each \<^verbatim>\<open>.msl_event_time\<close>, \<^verbatim>\<open>.msl_event_description\<close> and
  \<^verbatim>\<open>.msl_event_location\<close> the title found under its parent and its own text; for each
  \<^verbatim>\<open>.msl_event_types\<close> the title found under the parent of its parent and the texts of
  its \<^verbatim>\<open>a\<close> elements.
\<close>

record page =
  event_items :: "HTMLElement list"
  names :: "string list"
  times :: "(string \<times> string) list"
  descriptions :: "(string \<times> string) list"
  locations :: "(string \<times> string) list"
  types :: "(string \<times> string list) list"

datatype reply = Unreachable | Response nat page

text \<open>
  The environment of the process: the user's cache directory (\<^verbatim>\<open>os.UserCacheDir\<close>,
  an error when neither \<^verbatim>\<open>$XDG_CACHE_HOME\<close> nor \<^verbatim>\<open>$HOME\<close> is defined), the directories
  and files that exist, the paths the system refuses to examine (\<^verbatim>\<open>os.Stat\<close> fails
  with an error other than "does not exist", as it does with \<^verbatim>\<open>EACCES\<close> below a
  directory that may not be searched), the paths on which it refuses to make a
  directory, to create or truncate a file, to open a file, to write to a file, the clock,
  the answer of the events page, the number of requests sent, the log, and the order in
  which a \<^verbatim>\<open>range\<close> over a map visits its keys (Go leaves it unspecified).
\<close>

record world =
  UserCacheDir :: "string option"
  dirs :: "string set"
  files :: "string \<rightharpoonup> file_content"
  stat_refused :: "string set"
  mkdir_refused :: "string set"
  create_refused :: "string set"
  open_refused :: "string set"
  write_refused :: "string set"
  clock :: Time
  site :: reply
  requests :: nat
  stderr :: "log_entry list"
  range_order :: "string list"

text \<open>
  A call either returns or ends the process: \<^verbatim>\<open>log.Fatalf\<close> writes the message and
  calls \<^verbatim>\<open>os.Exit(1)\<close>. \<open>Exited\<close> holds the environment the process leaves behind.
\<close>

datatype 'a outcome = Exited world | Returned 'a

definition Fatalf :: "world \<Rightarrow> 'a outcome" where
  "Fatalf w = Exited (w\<lparr>stderr := stderr w @ [Fatal]\<rparr>)"

definition filepath_Join :: "string \<Rightarrow> string \<Rightarrow> string" where
  "filepath_Join dir name = dir @ ''/'' @ name"

text \<open>
  \<^verbatim>\<open>os.Stat\<close>, of which the scraper keeps the error only: none for a path that exists,
  \<^verbatim>\<open>ENOENT\<close> for one that does not, another error when the system refuses to examine
  the path. \<^verbatim>\<open>os.IsNotExist\<close> tells whether an error reports that a file or directory
  does not exist; it is false of \<^verbatim>\<open>nil\<close> and of every other error.
\<close>

definition os_Stat :: "string \<Rightarrow> world \<Rightarrow> error option" where
  "os_Stat path w =
     (if path \<in> stat_refused w then Some ErrPermission
      else if path \<in> dirs w \<or> files w path \<noteq> None then None
      else Some ErrNotExist)"

definition IsNotExist :: "error option \<Rightarrow> bool" where
  "IsNotExist err = (err = Some ErrNotExist)"

definition os_Mkdir :: "string \<Rightarrow> world \<Rightarrow> error + world" where
  "os_Mkdir path w =
     (if path \<in> mkdir_refused w then Inl ErrPermission
      else Inr (w\<lparr>dirs := insert path (dirs w)\<rparr>))"

text \<open>\<^verbatim>\<open>os.Create\<close> makes the file or truncates it: it is empty afterwards.\<close>

definition os_Create :: "string \<Rightarrow> world \<Rightarrow> error + world" where
  "os_Create path w =
     (if path \<in> create_refused w then Inl ErrPermission
      else Inr (w\<lparr>files := (files w)(path \<mapsto> Malformed)\<rparr>))"

definition os_Open :: "string \<Rightarrow> world \<Rightarrow> error + file_content" where
  "os_Open path w =
     (if path \<in> open_refused w then Inl ErrPermission
      else case files w path of None \<Rightarrow> Inl ErrNotExist | Some content \<Rightarrow> Inr content)"

text \<open>
  \<^verbatim>\<open>encoder.Encode(v)\<close> on the file just created: the value is marshalled first, and
  nothing is written when that fails; then the text is written.
\<close>

definition Encode :: "timefmt \<Rightarrow> string \<Rightarrow> CachedData \<Rightarrow> world \<Rightarrow> error option \<times> world" where
  "Encode tf path v w =
     (case encode_CachedData tf v of
        None \<Rightarrow> (Some ErrMarshal, w)
      | Some j \<Rightarrow>
          if path \<in> write_refused w then (Some ErrWrite, w)
          else (None, w\<lparr>files := (files w)(path \<mapsto> JSONText j)\<rparr>))"

text \<open>\<^verbatim>\<open>decoder.Decode(&cachedData)\<close> on an open file.\<close>

definition Decode :: "timefmt \<Rightarrow> file_content \<Rightarrow> error + CachedData" where
  "Decode tf content =
     (case content of
        Malformed \<Rightarrow> Inl ErrSyntax
      | JSONText j \<Rightarrow>
          (case decode_CachedData tf j of None \<Rightarrow> Inl ErrUnmarshal | Some d \<Rightarrow> Inr d))"

text \<open>\<^verbatim>\<open>time.Since(t)\<close> is \<^verbatim>\<open>time.Now().Sub(t)\<close>.\<close>

definition Since :: "world \<Rightarrow> Time \<Rightarrow> Duration" where
  "Since w t = Sub (clock w) t"


subsection \<open>Package colly\<close>

text \<open>
  \<^verbatim>\<open>HTMLElement.ChildText\<close> returns the concatenated text of the matching descendants
  with the white space around it removed.
\<close>

definition ChildText :: "string \<Rightarrow> string" where
  "ChildText text = TrimSpace text"

text \<open>
  The collector calls the \<^verbatim>\<open>OnHTML\<close> handler once for every element the selector
  matches, in document order. \<^verbatim>\<open>Request.Abort\<close> only sets a flag of the request, which
  the collector reads before it sends the request: set from inside the handler it ends
  nothing, and the handler is still called for every remaining element.
\<close>

fun handleOnHTML :: "(HTMLElement \<Rightarrow> 's \<Rightarrow> 's) \<Rightarrow> HTMLElement list \<Rightarrow> 's \<Rightarrow> 's" where
  "handleOnHTML f [] st = st"
| "handleOnHTML f (e # es) st = handleOnHTML f es (f e st)"

text \<open>
  \<^verbatim>\<open>c.Visit(url)\<close> with the handlers of \<^verbatim>\<open>ScrapeEvents\<close>: \<^verbatim>\<open>OnRequest\<close> logs the
  visit and the request is sent; a transport error, or a status code of 203 or more,
  goes to \<^verbatim>\<open>OnError\<close>, which logs it, and is returned; otherwise the \<^verbatim>\<open>OnHTML\<close>
  handler runs over the document.
\<close>

definition Visit ::
  "(HTMLElement \<Rightarrow> 's \<Rightarrow> 's) \<Rightarrow> 's \<Rightarrow> world \<Rightarrow> error option \<times> 's \<times> world" where
  "Visit f st w =
     (let w1 = w\<lparr>requests := requests w + 1, stderr := stderr w @ [Visiting]\<rparr> in
      case site w1 of
        Unreachable \<Rightarrow>
          (Some ErrTransport, st, w1\<lparr>stderr := stderr w1 @ [ErrorVisiting ErrTransport]\<rparr>)
      | Response code body \<Rightarrow>
          if code \<ge> 203
          then (Some (ErrStatus code), st,
                w1\<lparr>stderr := stderr w1 @ [ErrorVisiting (ErrStatus code)]\<rparr>)
          else (None, handleOnHTML f (event_items body) st, w1))"


section \<open>main.go\<close>

subsection \<open>getCacheDir\<close>

definition getCacheDir :: "world \<Rightarrow> (string \<times> world) outcome" where
  "getCacheDir w =
     (case UserCacheDir w of
        None \<Rightarrow> Fatalf w
      | Some cacheDir \<Rightarrow>
          let appCacheDir = filepath_Join cacheDir ''rhs-scraper'' in
          if IsNotExist (os_Stat appCacheDir w) then
            (case os_Mkdir appCacheDir w of
               Inl err \<Rightarrow> Fatalf w
             | Inr w' \<Rightarrow> Returned (appCacheDir, w'))
          else Returned (appCacheDir, w))"

subsection \<open>saveToCache\<close>

definition saveToCache :: "timefmt \<Rightarrow> Event list \<Rightarrow> world \<Rightarrow> (error option \<times> world) outcome" where
  "saveToCache tf events w =
     (let cachedData = \<lparr>LastScraped = clock w, Events = events\<rparr> in
      case getCacheDir w of
        Exited w' \<Rightarrow> Exited w'
      | Returned (cacheDir, w1) \<Rightarrow>
          let jsonFilePath = filepath_Join cacheDir ''events.json'' in
          (case os_Create jsonFilePath w1 of
             Inl err \<Rightarrow> Returned (Some (Errorf ''failed to create cache file'' err), w1)
           | Inr w2 \<Rightarrow>
               (case Encode tf jsonFilePath cachedData w2 of
                  (Some err, w3) \<Rightarrow>
                    Returned (Some (Errorf ''failed to encode events to JSON'' err), w3)
                | (None, w3) \<Rightarrow> Returned (None, w3))))"

subsection \<open>ScrapeEvents\<close>

text \<open>
  The variables the \<^verbatim>\<open>OnHTML\<close> closure captures (\<^verbatim>\<open>events\<close>, \<^verbatim>\<open>eventCount\<close>), the
  abort flag of the request, and the lines the closure logs.
\<close>

record scrape =
  events :: "Event list"
  eventCount :: int
  abort :: bool
  logged :: "log_entry list"

text \<open>
  The body of \<^verbatim>\<open>e.ForEach("dd.msl_event_types a", ...)\<close>, run over the texts of the
  category links with the slice \<^verbatim>\<open>categories\<close> as it grows.
\<close>

fun ForEach_types :: "string list \<Rightarrow> string list \<Rightarrow> string list" where
  "ForEach_types [] categories = categories"
| "ForEach_types (el # els) categories =
     (let categoryText = TrimSpace el in
      if ToLower categoryText \<noteq> ''free'' \<and> categoryText \<noteq> []
      then ForEach_types els (categories @ [categoryText])
      else ForEach_types els categories)"

definition category_of :: "HTMLElement \<Rightarrow> string" where
  "category_of e =
     (let category = ''uncategorized'';
          categories = ForEach_types (type_links e) []
      in if length categories > 0 then Join categories '', '' else category)"

text \<open>The handler registered for \<^verbatim>\<open>.msl_eventlist .event_item\<close>.\<close>

definition onEventItem :: "int \<Rightarrow> HTMLElement \<Rightarrow> scrape \<Rightarrow> scrape" where
  "onEventItem numEvents e st =
     (if eventCount st \<ge> numEvents then st\<lparr>abort := True\<rparr>
      else
        let title = TrimSpace (ChildText (name_text e)) in
        if title = [] then st\<lparr>logged := logged st @ [EmptyTitle]\<rparr>
        else
          let date = TrimSpace (ChildText (time_text e));
              location = TrimSpace (ChildText (location_text e));
              description = TrimSpace (ChildText (description_text e));
              category = category_of e;
              event = \<lparr>Title = title, Date = date, Location = location,
                       Category = category, Description = description\<rparr>
          in st\<lparr>events := events st @ [event], eventCount := eventCount st + 1\<rparr>)"

definition scrape0 :: scrape where
  "scrape0 = \<lparr>events = [], eventCount = 0, abort = False, logged = []\<rparr>"

definition ScrapeEvents ::
  "timefmt \<Rightarrow> int \<Rightarrow> world \<Rightarrow> ((error + Event list) \<times> world) outcome" where
  "ScrapeEvents tf numEvents0 w =
     (let numEvents = (if numEvents0 < 2 then 2 else if numEvents0 > 25 then 25 else numEvents0)
      in case Visit (onEventItem numEvents) scrape0 w of
           (Some err, st, w1) \<Rightarrow>
             Returned (Inl (Errorf ''failed to visit events page'' err),
                       w1\<lparr>stderr := stderr w1 @ logged st\<rparr>)
         | (None, st, w1) \<Rightarrow>
             (case saveToCache tf (events st) (w1\<lparr>stderr := stderr w1 @ logged st\<rparr>) of
                Exited w' \<Rightarrow> Exited w'
              | Returned (Some err, w2) \<Rightarrow>
                  Returned (Inl (Errorf ''failed to save events to cache'' err), w2)
              | Returned (None, w2) \<Rightarrow> Returned (Inr (events st), w2)))"

subsection \<open>ShouldScrape\<close>

definition ShouldScrape :: "timefmt \<Rightarrow> world \<Rightarrow> (bool \<times> world) outcome" where
  "ShouldScrape tf w =
     (case getCacheDir w of
        Exited w' \<Rightarrow> Exited w'
      | Returned (cacheDir, w1) \<Rightarrow>
          let jsonFilePath = filepath_Join cacheDir ''events.json'' in
          (case os_Open jsonFilePath w1 of
             Inl err \<Rightarrow> Returned (True, w1)
           | Inr file \<Rightarrow>
               (case Decode tf file of
                  Inl err \<Rightarrow> Returned (True, w1)
                | Inr cachedData \<Rightarrow>
                    let timeLimit = 12 in
                    if Since w1 (LastScraped cachedData) < timeLimit * Hour
                    then Returned (False, w1)
                    else Returned (True, w1))))"

subsection \<open>LoadCachedEvents\<close>

definition LoadCachedEvents :: "timefmt \<Rightarrow> world \<Rightarrow> ((error + Event list) \<times> world) outcome" where
  "LoadCachedEvents tf w =
     (case getCacheDir w of
        Exited w' \<Rightarrow> Exited w'
      | Returned (cacheDir, w1) \<Rightarrow>
          let jsonFilePath = filepath_Join cacheDir ''events.json'' in
          (case os_Open jsonFilePath w1 of
             Inl err \<Rightarrow> Returned (Inl (Errorf ''!error opening cache file'' err), w1)
           | Inr file \<Rightarrow>
               (case Decode tf file of
                  Inl err \<Rightarrow> Returned (Inl (Errorf ''!error decoding cache file'' err), w1)
                | Inr cachedData \<Rightarrow>
                    Returned (Inr (Events cachedData),
                              w1\<lparr>stderr := stderr w1 @ [Loaded (length (Events cachedData))]\<rparr>))))"

subsection \<open>main\<close>

text \<open>
  \<^verbatim>\<open>main\<close> prints the events it obtained; on an error it prints none and ends the
  process with \<^verbatim>\<open>log.Fatalf\<close>. The result is the list of events printed.
\<close>

definition main :: "timefmt \<Rightarrow> world \<Rightarrow> (Event list \<times> world) outcome" where
  "main tf w =
     (case ShouldScrape tf w of
        Exited w' \<Rightarrow> Exited w'
      | Returned (shouldScrape, w1) \<Rightarrow>
          if shouldScrape then
            (case ScrapeEvents tf 10 w1 of
               Exited w' \<Rightarrow> Exited w'
             | Returned (Inl err, w2) \<Rightarrow> Fatalf w2
             | Returned (Inr events', w2) \<Rightarrow> Returned (events', w2))
          else
            (case LoadCachedEvents tf w1 of
               Exited w' \<Rightarrow> Exited w'
             | Returned (Inl err, w2) \<Rightarrow> Fatalf w2
             | Returned (Inr events', w2) \<Rightarrow> Returned (events', w2)))"


section \<open>scraper.go\<close>

text \<open>
  The older draft. Its \<^verbatim>\<open>getCacheDir\<close> is the one of main.go (with \<^verbatim>\<open>log.Fatal\<close> for
  \<^verbatim>\<open>log.Fatalf\<close>), and is not repeated.
\<close>

subsection \<open>scrapeEvents\<close>

text \<open>
  The variables the closures capture: the map from a title to its event, the slice
  \<^verbatim>\<open>events\<close> (here \<open>found\<close>) and the counter \<^verbatim>\<open>eventCount\<close> (here \<open>counted\<close>).
\<close>

record scrape_map =
  eventsMap :: "string \<rightharpoonup> Event"
  found :: "Event list"
  counted :: int

text \<open>The handler of \<^verbatim>\<open>.msl_event_name\<close>.\<close>

definition onName :: "int \<Rightarrow> string \<Rightarrow> scrape_map \<Rightarrow> scrape_map" where
  "onName numEvents text st =
     (if counted st \<ge> numEvents then st
      else
        let title = text;
            event = (case eventsMap st title of None \<Rightarrow> zeroEvent | Some ev \<Rightarrow> ev)
        in st\<lparr>eventsMap := (eventsMap st)(title \<mapsto> event\<lparr>Title := title\<rparr>)\<rparr>)"

text \<open>The handlers of \<^verbatim>\<open>.msl_event_time\<close>, \<^verbatim>\<open>.msl_event_description\<close>, \<^verbatim>\<open>.msl_event_location\<close>.\<close>

definition onTime :: "int \<Rightarrow> string \<times> string \<Rightarrow> scrape_map \<Rightarrow> scrape_map" where
  "onTime numEvents e st =
     (if counted st \<ge> numEvents then st
      else
        case eventsMap st (fst e) of
          None \<Rightarrow> st
        | Some event \<Rightarrow> st\<lparr>eventsMap := (eventsMap st)(fst e \<mapsto> event\<lparr>Date := snd e\<rparr>)\<rparr>)"

definition onDescription :: "int \<Rightarrow> string \<times> string \<Rightarrow> scrape_map \<Rightarrow> scrape_map" where
  "onDescription numEvents e st =
     (if counted st \<ge> numEvents then st
      else
        case eventsMap st (fst e) of
          None \<Rightarrow> st
        | Some event \<Rightarrow> st\<lparr>eventsMap := (eventsMap st)(fst e \<mapsto> event\<lparr>Description := snd e\<rparr>)\<rparr>)"

definition onLocation :: "int \<Rightarrow> string \<times> string \<Rightarrow> scrape_map \<Rightarrow> scrape_map" where
  "onLocation numEvents e st =
     (if counted st \<ge> numEvents then st
      else
        case eventsMap st (fst e) of
          None \<Rightarrow> st
        | Some event \<Rightarrow> st\<lparr>eventsMap := (eventsMap st)(fst e \<mapsto> event\<lparr>Location := snd e\<rparr>)\<rparr>)"

text \<open>
  The body of \<^verbatim>\<open>e.ForEach("a", ...)\<close> in the handler of \<^verbatim>\<open>.msl_event_types\<close>: the
  event and the flag \<^verbatim>\<open>validCategoryFound\<close> after the links.
\<close>

fun ForEach_a :: "string list \<Rightarrow> Event \<times> bool \<Rightarrow> Event \<times> bool" where
  "ForEach_a [] acc = acc"
| "ForEach_a (categoryText # els) (event, validCategoryFound) =
     (if categoryText = ''Free'' \<or> categoryText = ''free''
      then ForEach_a els (event, validCategoryFound)
      else ForEach_a els (event\<lparr>Category := categoryText\<rparr>, True))"

definition onTypes :: "int \<Rightarrow> string \<times> string list \<Rightarrow> scrape_map \<Rightarrow> scrape_map" where
  "onTypes numEvents e st =
     (if counted st \<ge> numEvents then st
      else
        case eventsMap st (fst e) of
          None \<Rightarrow> st
        | Some event0 \<Rightarrow>
            let (event, validCategoryFound) = ForEach_a (snd e) (event0, False);
                event' = (if \<not> validCategoryFound then event\<lparr>Category := ''Uncategorized''\<rparr>
                          else event)
            in st\<lparr>eventsMap := (eventsMap st)(fst e \<mapsto> event')\<rparr>)"

text \<open>A registered handler is run over all the elements of its selector.\<close>

fun each :: "('e \<Rightarrow> 's \<Rightarrow> 's) \<Rightarrow> 'e list \<Rightarrow> 's \<Rightarrow> 's" where
  "each f [] st = st"
| "each f (e # es) st = each f es (f e st)"

text \<open>
  The loop of \<^verbatim>\<open>OnScraped\<close>: \<^verbatim>\<open>for _, event := range eventsMap\<close>, over the keys in
  the order the runtime picks.
\<close>

fun range_eventsMap :: "int \<Rightarrow> string list \<Rightarrow> scrape_map \<Rightarrow> scrape_map" where
  "range_eventsMap numEvents [] st = st"
| "range_eventsMap numEvents (k # ks) st =
     (case eventsMap st k of
        None \<Rightarrow> range_eventsMap numEvents ks st
      | Some event \<Rightarrow>
          if counted st \<ge> numEvents then st
          else range_eventsMap numEvents ks
                 (st\<lparr>found := found st @ [event], counted := counted st + 1\<rparr>))"

definition scrape_map0 :: scrape_map where
  "scrape_map0 = \<lparr>eventsMap = Map.empty, found = [], counted = 0\<rparr>"

text \<open>
  \<^verbatim>\<open>scrapeEvents\<close> returns nothing; the result here is the list it printed as found and
  wrote to the cache, or nothing when the visit failed (the error of \<^verbatim>\<open>c.Visit\<close> is
  dropped and \<^verbatim>\<open>OnScraped\<close> does not run).
\<close>

definition scrapeEvents :: "timefmt \<Rightarrow> int \<Rightarrow> world \<Rightarrow> (Event list option \<times> world) outcome" where
  "scrapeEvents tf numEvents w =
     (let w1 = w\<lparr>requests := requests w + 1\<rparr> in
      case site w1 of
        Unreachable \<Rightarrow> Returned (None, w1)
      | Response code body \<Rightarrow>
          if code \<ge> 203 then Returned (None, w1)
          else
            let st1 = each (onName numEvents) (names body) scrape_map0;
                st2 = each (onTime numEvents) (times body) st1;
                st3 = each (onDescription numEvents) (descriptions body) st2;
                st4 = each (onLocation numEvents) (locations body) st3;
                st5 = each (onTypes numEvents) (types body) st4;
                st6 = range_eventsMap numEvents (range_order w1) st5;
                cachedData = \<lparr>LastScraped = clock w1, Events = found st6\<rparr>
            in case getCacheDir w1 of
                 Exited w' \<Rightarrow> Exited w'
               | Returned (cacheDir, w2) \<Rightarrow>
                   let jsonFilePath = filepath_Join cacheDir ''events.json'' in
                   (case os_Create jsonFilePath w2 of
                      Inl err \<Rightarrow> Fatalf w2
                    | Inr w3 \<Rightarrow>
                        (case Encode tf jsonFilePath cachedData w3 of
                           (Some err, w4) \<Rightarrow> Fatalf w4
                         | (None, w4) \<Rightarrow> Returned (Some (found st6), w4))))"

subsection \<open>shouldScrape\<close>

definition shouldScrape :: "timefmt \<Rightarrow> world \<Rightarrow> (bool \<times> world) outcome" where
  "shouldScrape tf w =
     (case getCacheDir w of
        Exited w' \<Rightarrow> Exited w'
      | Returned (cacheDir, w1) \<Rightarrow>
          let jsonFilePath = filepath_Join cacheDir ''events.json'' in
          (case os_Open jsonFilePath w1 of
             Inl err \<Rightarrow> Returned (True, w1)
           | Inr file \<Rightarrow>
               (case Decode tf file of
                  Inl err \<Rightarrow> Returned (True, w1)
                | Inr cachedData \<Rightarrow>
                    if Since w1 (LastScraped cachedData) < 12 * Hour
                    then Returned (False, w1)
                    else Returned (True, w1))))"

subsection \<open>loadCachedEvents\<close>

text \<open>The result is the list \<^verbatim>\<open>loadCachedEvents\<close> prints.\<close>

definition loadCachedEvents :: "timefmt \<Rightarrow> world \<Rightarrow> (Event list \<times> world) outcome" where
  "loadCachedEvents tf w =
     (case getCacheDir w of
        Exited w' \<Rightarrow> Exited w'
      | Returned (cacheDir, w1) \<Rightarrow>
          let jsonFilePath = filepath_Join cacheDir ''events.json'' in
          (case os_Open jsonFilePath w1 of
             Inl err \<Rightarrow> Fatalf w1
           | Inr file \<Rightarrow>
               (case Decode tf file of
                  Inl err \<Rightarrow> Fatalf w1
                | Inr cachedData \<Rightarrow> Returned (Events cachedData, w1))))"

subsection \<open>main of scraper.go\<close>

text \<open>
  The flags \<^verbatim>\<open>-f\<close> and \<^verbatim>\<open>-n\<close> and the line read from standard input are arguments.
  The result tells which way \<^verbatim>\<open>main\<close> went and what that call produced.
\<close>

datatype shown = Scraped "Event list option" | Cached "Event list"

text \<open>The validation of the flag \<^verbatim>\<open>-n\<close> at the head of \<^verbatim>\<open>main\<close>.\<close>

definition validate_numEvents :: "int \<Rightarrow> int" where
  "validate_numEvents numEvents =
     (if numEvents < 2 then 2 else if numEvents > 25 then 25 else numEvents)"

definition scrape_and_show :: "timefmt \<Rightarrow> int \<Rightarrow> world \<Rightarrow> (shown \<times> world) outcome" where
  "scrape_and_show tf numEvents w =
     (case scrapeEvents tf numEvents w of
        Exited w' \<Rightarrow> Exited w'
      | Returned (r, w') \<Rightarrow> Returned (Scraped r, w'))"

definition scraper_main ::
  "timefmt \<Rightarrow> bool \<Rightarrow> int \<Rightarrow> string \<Rightarrow> world \<Rightarrow> (shown \<times> world) outcome" where
  "scraper_main tf forceScrape numEvents0 line w =
     (let numEvents = validate_numEvents numEvents0 in
      if forceScrape then scrape_and_show tf numEvents w
      else
        case shouldScrape tf w of
          Exited w' \<Rightarrow> Exited w'
        | Returned (True, w1) \<Rightarrow> scrape_and_show tf numEvents w1
        | Returned (False, w1) \<Rightarrow>
            let response = ToLower line in
            if response = ''y'' then scrape_and_show tf numEvents w1
            else
              (case loadCachedEvents tf w1 of
                 Exited w' \<Rightarrow> Exited w'
               | Returned (evs, w2) \<Rightarrow> Returned (Cached evs, w2)))"


section \<open>Notions used in the statements\<close>

subsection \<open>The extractor and the category as the specification words them\<close>

text \<open>
  The specification's extractor: one container gives one record, or none when its
  trimmed title is empty.
\<close>

definition extract_event :: "HTMLElement \<Rightarrow> Event option" where
  "extract_event e =
     (let title = TrimSpace (ChildText (name_text e)) in
      if title = [] then None
      else Some \<lparr>Title = title,
                 Date = TrimSpace (ChildText (time_text e)),
                 Location = TrimSpace (ChildText (location_text e)),
                 Category = category_of e,
                 Description = TrimSpace (ChildText (description_text e))\<rparr>)"

text \<open>The valid (non-empty-title) records of a list of containers, in document order.\<close>

definition valid_records :: "HTMLElement list \<Rightarrow> Event list" where
  "valid_records es = List.map_filter extract_event es"






subsection \<open>The cache on disk\<close>

text \<open>
  The directory and the file of the cache under the user's cache directory \<open>root\<close>.
  The cache directory is ready when \<^verbatim>\<open>getCacheDir\<close> returns: \<^verbatim>\<open>os.UserCacheDir\<close>
  answers \<open>root\<close>, and \<^verbatim>\<open>os.Stat\<close> does not report the directory missing or it may be
  made; \<open>with_cache_dir\<close> is the environment \<^verbatim>\<open>getCacheDir\<close> then leaves.
\<close>

definition appCacheDir :: "string \<Rightarrow> string" where
  "appCacheDir root = filepath_Join root ''rhs-scraper''"

definition cacheFile :: "string \<Rightarrow> string" where
  "cacheFile root = filepath_Join (appCacheDir root) ''events.json''"

definition cache_dir_ready :: "world \<Rightarrow> string \<Rightarrow> bool" where
  "cache_dir_ready w root =
     (UserCacheDir w = Some root
      \<and> (\<not> IsNotExist (os_Stat (appCacheDir root) w) \<or> appCacheDir root \<notin> mkdir_refused w))"

definition with_cache_dir :: "world \<Rightarrow> string \<Rightarrow> world" where
  "with_cache_dir w root =
     (if IsNotExist (os_Stat (appCacheDir root) w)
      then w\<lparr>dirs := insert (appCacheDir root) (dirs w)\<rparr>
      else w)"

text \<open>
  The cache can be saved when, besides, the file may be created and written and the
  clock has a timestamp text.
\<close>

definition can_save :: "timefmt \<Rightarrow> world \<Rightarrow> string \<Rightarrow> bool" where
  "can_save tf w root =
     (cache_dir_ready w root \<and> cacheFile root \<notin> create_refused w
      \<and> MarshalJSON tf (clock w) \<noteq> None \<and> cacheFile root \<notin> write_refused w)"

text \<open>
  The JSON document \<^verbatim>\<open>saveToCache\<close> writes for the timestamp text \<open>t\<close> and the events
  \<open>evs\<close>, and the environment after the cache file got a new content.
\<close>

definition written :: "string \<Rightarrow> Event list \<Rightarrow> json" where
  "written t evs = JObject [(''last_scraped'', JString t), (''events'', encode_Events evs)]"

definition saved :: "world \<Rightarrow> string \<Rightarrow> file_content \<Rightarrow> world" where
  "saved w root content = (with_cache_dir w root)\<lparr>files := (files w)(cacheFile root \<mapsto> content)\<rparr>"

text \<open>An event whose fields are valid UTF-8, and an event after the encoder's coercion.\<close>

definition ValidEvent :: "Event \<Rightarrow> bool" where
  "ValidEvent e =
     (ValidString (Title e) \<and> ValidString (Date e) \<and> ValidString (Location e)
      \<and> ValidString (Category e) \<and> ValidString (Description e))"

definition coerce_Event :: "Event \<Rightarrow> Event" where
  "coerce_Event e =
     \<lparr>Title = coerceUTF8 (Title e), Date = coerceUTF8 (Date e),
      Location = coerceUTF8 (Location e), Category = coerceUTF8 (Category e),
      Description = coerceUTF8 (Description e)\<rparr>"

subsection \<open>Outcomes\<close>

text \<open>
  What a call returned, if it returned: the value, the events, the error; whether the
  process ended; the environment afterwards.
\<close>

definition returned_value :: "('a \<times> world) outcome \<Rightarrow> 'a option" where
  "returned_value r = (case r of Exited w \<Rightarrow> None | Returned (x, w) \<Rightarrow> Some x)"

definition returned_events :: "((error + Event list) \<times> world) outcome \<Rightarrow> Event list option" where
  "returned_events r = (case r of Returned (Inr evs, w) \<Rightarrow> Some evs | _ \<Rightarrow> None)"

definition returned_error :: "((error + Event list) \<times> world) outcome \<Rightarrow> error option" where
  "returned_error r = (case r of Returned (Inl err, w) \<Rightarrow> Some err | _ \<Rightarrow> None)"

definition exited :: "'a outcome \<Rightarrow> bool" where
  "exited r = (case r of Exited w \<Rightarrow> True | Returned x \<Rightarrow> False)"

definition world_after :: "('a \<times> world) outcome \<Rightarrow> world" where
  "world_after r = (case r of Exited w \<Rightarrow> w | Returned (x, w) \<Rightarrow> w)"

text \<open>
  The environment after a visit that succeeded (one request more, the visit and the
  warnings of the handler in the log) and after one that failed with \<open>err\<close>.
\<close>

definition fetched :: "world \<Rightarrow> int \<Rightarrow> page \<Rightarrow> world" where
  "fetched w n body =
     w\<lparr>requests := requests w + 1,
       stderr := stderr w @ [Visiting]
                   @ logged (handleOnHTML (onEventItem n) (event_items body) scrape0)\<rparr>"

definition failed_visit :: "world \<Rightarrow> error \<Rightarrow> world" where
  "failed_visit w err =
     w\<lparr>requests := requests w + 1, stderr := stderr w @ [Visiting, ErrorVisiting err]\<rparr>"

subsection \<open>ASCII strings\<close>

definition ascii_space :: "char \<Rightarrow> bool" where
  "ascii_space c = IsSpace (byte c)"

definition ascii :: "string \<Rightarrow> bool" where
  "ascii s = (\<forall>c \<in> set s. byte c < 128)"

subsection \<open>Examples\<close>

text \<open>
  A page with four containers, one of them with a blank title; events as the scraper
  builds them from it.
\<close>

definition example_item :: "string \<Rightarrow> string list \<Rightarrow> HTMLElement" where
  "example_item title links =
     \<lparr>name_text = title, time_text = '' 7pm '', location_text = ''Union'',
      description_text = [], type_links = links\<rparr>"

definition example_page :: page where
  "example_page =
     \<lparr>event_items = [example_item ''Quiz '' [''Free'', ''Music''], example_item ''  '' [''Sport''],
                     example_item ''Karaoke'' [''free''], example_item ''Film'' [''Arts'', ''Film'']],
      names = [], times = [], descriptions = [], locations = [], types = []\<rparr>"

definition example_event :: "string \<Rightarrow> string \<Rightarrow> Event" where
  "example_event title category =
     \<lparr>Title = title, Date = ''7pm'', Location = ''Union'', Category = category,
      Description = []\<rparr>"

text \<open>
  A timestamp text for one instant (1700000000 seconds after the epoch), and an
  environment: no cache yet, nothing refused, the events page answering with the example
  page.
\<close>

definition example_timefmt :: timefmt where
  "example_timefmt =
     \<lparr>MarshalJSON =
        (\<lambda>t. if t = 1700000000000000000 then Some ''2023-11-14T22:13:20Z'' else None),
      UnmarshalJSON =
        (\<lambda>s. if s = ''2023-11-14T22:13:20Z'' then Some 1700000000000000000 else None)\<rparr>"

definition example_world :: world where
  "example_world =
     \<lparr>UserCacheDir = Some ''/home/u/.cache'', dirs = {''/home/u/.cache''}, files = Map.empty,
      stat_refused = {}, mkdir_refused = {}, create_refused = {}, open_refused = {},
      write_refused = {},
      clock = 1700000000000000000, site = Response 200 example_page, requests = 0,
      stderr = [], range_order = []\<rparr>"

text \<open>
  The example environment with a cache written at the example instant and read when the
  clock shows \<open>now\<close>, and with a cache file that is not a JSON text.
\<close>

definition example_cached :: "Time \<Rightarrow> world" where
  "example_cached now =
     example_world
       \<lparr>dirs := {''/home/u/.cache'', ''/home/u/.cache/rhs-scraper''},
        files := [''/home/u/.cache/rhs-scraper/events.json'' \<mapsto>
                    JSONText (written ''2023-11-14T22:13:20Z'' [example_event ''Quiz'' ''Music''])],
        clock := now\<rparr>"

definition example_corrupt :: world where
  "example_corrupt =
     example_world
       \<lparr>dirs := {''/home/u/.cache'', ''/home/u/.cache/rhs-scraper''},
        files := [''/home/u/.cache/rhs-scraper/events.json'' \<mapsto> Malformed]\<rparr>"

text \<open>The example environment with the host out of reach, and with a server error.\<close>

definition example_offline :: "Time \<Rightarrow> world" where
  "example_offline now = (example_cached now)\<lparr>site := Unreachable\<rparr>"

definition example_server_error :: "Time \<Rightarrow> world" where
  "example_server_error now = (example_cached now)\<lparr>site := Response 503 example_page\<rparr>"

text \<open>An event whose title is the single byte FF, which is not valid UTF-8.\<close>

definition example_invalid_event :: Event where
  "example_invalid_event = (example_event ''Quiz'' ''Music'')\<lparr>Title := [CHR 0xFF]\<rparr>"

text \<open>The example environment where the system refuses to make the cache directory.\<close>

definition example_no_mkdir :: world where
  "example_no_mkdir = example_world\<lparr>mkdir_refused := {''/home/u/.cache/rhs-scraper''}\<rparr>"

text \<open>The example environment where the system refuses to create the cache file.\<close>

definition example_no_create :: world where
  "example_no_create =
     example_world\<lparr>create_refused := {''/home/u/.cache/rhs-scraper/events.json''}\<rparr>"

text \<open>
  The example environment with a cache on disk, read twelve hours and more after it was
  written, below a directory that may not be searched: the system refuses to examine the
  cache directory, to open the cache file and to create it.
\<close>

definition example_unsearchable :: world where
  "example_unsearchable =
     (example_cached 1700050000000000000)
       \<lparr>stat_refused := {''/home/u/.cache/rhs-scraper''},
        mkdir_refused := {''/home/u/.cache/rhs-scraper''},
        open_refused := {''/home/u/.cache/rhs-scraper/events.json''},
        create_refused := {''/home/u/.cache/rhs-scraper/events.json''}\<rparr>"

subsection \<open>The fetcher of scraper.go\<close>

text \<open>The state of scraper.go's closures after the handlers ran over a page.\<close>

definition gathered :: "int \<Rightarrow> page \<Rightarrow> scrape_map" where
  "gathered m body =
     each (onTypes m) (types body)
       (each (onLocation m) (locations body)
         (each (onDescription m) (descriptions body)
           (each (onTime m) (times body)
             (each (onName m) (names body) scrape_map0))))"

text \<open>A state where the counter is still zero and every event is filed under its title.\<close>

definition filed :: "scrape_map \<Rightarrow> bool" where
  "filed st =
     (counted st = 0 \<and> found st = []
      \<and> (\<forall>k ev. eventsMap st k = Some ev \<longrightarrow> Title ev = k))"

text \<open>
  A page as the handlers of scraper.go read it: four titles, one of them twice; the map
  is ranged over in another order than the document's. And a page with 26 titles.
\<close>

definition example_draft_page :: page where
  "example_draft_page =
     \<lparr>event_items = [], names = [''Quiz'', ''Film'', ''Quiz'', ''Karaoke''],
      times = [(''Quiz'', ''7pm'')], descriptions = [], locations = [(''Film'', ''Union'')],
      types = [(''Quiz'', [''Free'', ''Music''])]\<rparr>"


definition example_letters :: world where
  "example_letters =
     example_world
       \<lparr>site := Response 200
                  (example_draft_page\<lparr>names := map (\<lambda>c. [c]) ''abcdefghijklmnopqrstuvwxyz''\<rparr>),
        range_order := map (\<lambda>c. [c]) ''abcdefghijklmnopqrstuvwxyz''\<rparr>"


section \<open>Properties\<close>

subsection \<open>The category of a container\<close>






lemma Join_two_sep: "Join (a # b # rest) sep = a @ sep @ Join (b # rest) sep"
  by simp







subsection \<open>The traversal of the containers\<close>

lemma extract_event_step:
  "eventCount st < n \<Longrightarrow>
   onEventItem n e st =
     (case extract_event e of
        None \<Rightarrow> st\<lparr>logged := logged st @ [EmptyTitle]\<rparr>
      | Some ev \<Rightarrow> st\<lparr>events := events st @ [ev], eventCount := eventCount st + 1\<rparr>)"
  by (simp add: onEventItem_def extract_event_def Let_def)

lemma capped_step: "n \<le> eventCount st \<Longrightarrow> onEventItem n e st = st\<lparr>abort := True\<rparr>"
  by (simp add: onEventItem_def)

lemma valid_records_Cons:
  "valid_records (e # es) =
     (case extract_event e of None \<Rightarrow> valid_records es | Some ev \<Rightarrow> ev # valid_records es)"
  by (simp add: valid_records_def map_filter_simps split: option.split)

lemma valid_records_Nil: "valid_records [] = []"
  by (simp add: valid_records_def map_filter_simps)

lemma handle_events:
  "eventCount st = int (length (events st)) \<Longrightarrow>
   events (handleOnHTML (onEventItem n) es st)
     = events st @ take (nat (n - eventCount st)) (valid_records es)"
proof (induction es arbitrary: st)
  case Nil
  then show ?case by (simp add: valid_records_Nil)
next
  case (Cons e es)
  show ?case
  proof (cases "n \<le> eventCount st")
    case True
    then have step: "onEventItem n e st = st\<lparr>abort := True\<rparr>" by (rule capped_step)
    have "eventCount (st\<lparr>abort := True\<rparr>) = int (length (events (st\<lparr>abort := True\<rparr>)))"
      using Cons.prems by simp
    from Cons.IH[OF this] True show ?thesis
      by (simp add: step)
  next
    case False
    then have lt: "eventCount st < n" by simp
    show ?thesis
    proof (cases "extract_event e")
      case None
      have inv: "eventCount (st\<lparr>logged := logged st @ [EmptyTitle]\<rparr>)
                  = int (length (events (st\<lparr>logged := logged st @ [EmptyTitle]\<rparr>)))"
        using Cons.prems by simp
      from Cons.IH[OF inv] show ?thesis
        by (simp add: extract_event_step[OF lt] None valid_records_Cons)
    next
      case (Some ev)
      let ?st' = "st\<lparr>events := events st @ [ev], eventCount := eventCount st + 1\<rparr>"
      have inv: "eventCount ?st' = int (length (events ?st'))"
        using Cons.prems by simp
      have "nat (n - eventCount st) = Suc (nat (n - (eventCount st + 1)))"
        using lt by simp
      with Cons.IH[OF inv] show ?thesis
        by (simp add: extract_event_step[OF lt] Some valid_records_Cons)
    qed
  qed
qed

lemma traversal_events:
  "events (handleOnHTML (onEventItem n) es scrape0) = take (nat n) (valid_records es)"
  using handle_events[of scrape0 n es] by (simp add: scrape0_def)

subsection \<open>The cache directory and the freshness test\<close>

lemma getCacheDir_ready:
  "cache_dir_ready w root \<Longrightarrow> getCacheDir w = Returned (appCacheDir root, with_cache_dir w root)"
  by (auto simp: cache_dir_ready_def getCacheDir_def with_cache_dir_def appCacheDir_def
        os_Mkdir_def Let_def)

lemma getCacheDir_no_root: "UserCacheDir w = None \<Longrightarrow> getCacheDir w = Fatalf w"
  by (simp add: getCacheDir_def)

lemma getCacheDir_refused:
  "UserCacheDir w = Some root \<Longrightarrow> IsNotExist (os_Stat (appCacheDir root) w) \<Longrightarrow>
   appCacheDir root \<in> mkdir_refused w \<Longrightarrow> getCacheDir w = Fatalf w"
  by (simp add: getCacheDir_def appCacheDir_def os_Mkdir_def)

lemma exited_Fatalf: "exited (Fatalf w)"
  by (simp add: exited_def Fatalf_def)

lemma ShouldScrape_exit: "getCacheDir w = Fatalf w \<Longrightarrow> ShouldScrape tf w = Fatalf w"
  by (simp add: ShouldScrape_def Fatalf_def)

lemma LoadCachedEvents_exit: "getCacheDir w = Fatalf w \<Longrightarrow> LoadCachedEvents tf w = Fatalf w"
  by (simp add: LoadCachedEvents_def Fatalf_def)

lemma with_cache_dir_fields [simp]:
  "files (with_cache_dir w root) = files w"
  "UserCacheDir (with_cache_dir w root) = UserCacheDir w"
  "stat_refused (with_cache_dir w root) = stat_refused w"
  "mkdir_refused (with_cache_dir w root) = mkdir_refused w"
  "create_refused (with_cache_dir w root) = create_refused w"
  "open_refused (with_cache_dir w root) = open_refused w"
  "write_refused (with_cache_dir w root) = write_refused w"
  "clock (with_cache_dir w root) = clock w"
  "site (with_cache_dir w root) = site w"
  "requests (with_cache_dir w root) = requests w"
  "stderr (with_cache_dir w root) = stderr w"
  "range_order (with_cache_dir w root) = range_order w"
  by (simp_all add: with_cache_dir_def)

lemma with_cache_dir_exists: "\<not> IsNotExist (os_Stat (appCacheDir root) (with_cache_dir w root))"
  by (simp add: with_cache_dir_def IsNotExist_def os_Stat_def)

lemma Sub_less_iff: "d \<le> maxDuration \<Longrightarrow> minDuration < d \<Longrightarrow> Sub t u < d \<longleftrightarrow> t - u < d"
  by (auto simp: Sub_def Let_def)

lemma twelve_hours_range: "12 * Hour \<le> maxDuration" "minDuration < 12 * Hour"
  by (simp_all add: Hour_def maxDuration_def minDuration_def)

lemma Since_fresh_iff: "Since w t < 12 * Hour \<longleftrightarrow> clock w - t < 12 * Hour"
  by (simp add: Since_def Sub_less_iff twelve_hours_range)

lemma ShouldScrape_eq:
  assumes "cache_dir_ready w root"
  shows "ShouldScrape tf w =
           Returned
             (case os_Open (cacheFile root) w of
                Inl err \<Rightarrow> True
              | Inr file \<Rightarrow>
                  (case Decode tf file of
                     Inl err \<Rightarrow> True
                   | Inr d \<Rightarrow> \<not> clock w - LastScraped d < 12 * Hour),
              with_cache_dir w root)"
proof -
  have open_same: "os_Open p (with_cache_dir w root) = os_Open p w" for p
    by (simp add: os_Open_def split: option.split)
  show ?thesis
    by (simp add: ShouldScrape_def getCacheDir_ready[OF assms] cacheFile_def[symmetric]
          open_same Since_fresh_iff Let_def split: sum.split)
qed

subsection \<open>Encoding and decoding the cache\<close>

lemma coerceUTF8_valid: "ValidString s \<Longrightarrow> coerceUTF8 s = s"
proof (induction s rule: coerceUTF8.induct)
  case 1
  show ?case by simp
next
  case (2 c cs)
  let ?n = "snd (DecodeRune (c # cs))"
  from "2.prems" have ok: "\<not> (fst (DecodeRune (c # cs)) = RuneError \<and> ?n = 1)"
    and rest: "ValidString (drop (?n - 1) cs)"
    by (simp_all add: Let_def del: DecodeRune.simps)
  from "2.IH"(2)[OF refl ok rest] ok show ?case
    by (auto simp add: Let_def simp del: DecodeRune.simps)
qed

lemma coerce_Event_valid: "ValidEvent e \<Longrightarrow> coerce_Event e = e"
  by (simp add: ValidEvent_def coerce_Event_def coerceUTF8_valid)

lemma map_coerce_Event_valid: "\<forall>e \<in> set es. ValidEvent e \<Longrightarrow> map coerce_Event es = es"
  by (induction es) (simp_all add: coerce_Event_valid)

lemma tags_lower:
  "foldName ''title'' = ''title''" "foldName ''date'' = ''date''"
  "foldName ''location'' = ''location''" "foldName ''category'' = ''category''"
  "foldName ''description'' = ''description''" "foldName ''last_scraped'' = ''last_scraped''"
  "foldName ''events'' = ''events''"
  by (simp_all add: lower_byte_def byte_def)

lemma decode_encode_Event: "decode_Event (encode_Event e) zeroEvent = Some (coerce_Event e)"
  by (simp add: decode_Event_def encode_Event_def tags_lower decode_string_def zeroEvent_def
        coerce_Event_def del: foldName.simps)

lemma decode_encode_Event_list:
  "decode_Event_list (map encode_Event es) [] = Some (map coerce_Event es)"
  by (induction es) (simp_all add: decode_encode_Event)

lemma decode_encode_Events:
  "decode_Events (encode_Events es) [] = Some (map coerce_Event es, map coerce_Event es)"
  by (simp add: decode_Events_def encode_Events_def decode_encode_Event_list)

lemma decode_written:
  "decode_CachedData tf (written t evs) =
     (case UnmarshalJSON tf t of
        None \<Rightarrow> None
      | Some t' \<Rightarrow> Some \<lparr>LastScraped = t', Events = map coerce_Event evs\<rparr>)"
  by (simp add: decode_CachedData_def written_def tags_lower decode_Time_def
        decode_encode_Events zeroCachedData_def del: foldName.simps split: option.split)

lemma encode_written:
  "encode_CachedData tf \<lparr>LastScraped = now, Events = evs\<rparr> =
     (case MarshalJSON tf now of None \<Rightarrow> None | Some t \<Rightarrow> Some (written t evs))"
  by (simp add: encode_CachedData_def written_def split: option.split)

subsection \<open>Saving, fetching and loading\<close>

lemma saveToCache_eq:
  assumes "cache_dir_ready w root"
  shows "saveToCache tf evs w =
           (if cacheFile root \<in> create_refused w
            then Returned (Some (Errorf ''failed to create cache file'' ErrPermission),
                           with_cache_dir w root)
            else
              case MarshalJSON tf (clock w) of
                None \<Rightarrow>
                  Returned (Some (Errorf ''failed to encode events to JSON'' ErrMarshal),
                            saved w root Malformed)
              | Some t \<Rightarrow>
                  if cacheFile root \<in> write_refused w
                  then Returned (Some (Errorf ''failed to encode events to JSON'' ErrWrite),
                                 saved w root Malformed)
                  else Returned (None, saved w root (JSONText (written t evs))))"
  by (simp add: saveToCache_def getCacheDir_ready[OF assms] cacheFile_def[symmetric]
        os_Create_def Encode_def encode_written saved_def Let_def split: option.split)

lemma saveToCache_exit:
  "getCacheDir w = Fatalf w \<Longrightarrow> saveToCache tf evs w = Fatalf w"
  by (simp add: saveToCache_def Fatalf_def)

lemma Visit_ok:
  "site w = Response code body \<Longrightarrow> code < 203 \<Longrightarrow>
   Visit f st w =
     (None, handleOnHTML f (event_items body) st,
      w\<lparr>requests := requests w + 1, stderr := stderr w @ [Visiting]\<rparr>)"
  by (simp add: Visit_def Let_def)

lemma Visit_unreachable:
  "site w = Unreachable \<Longrightarrow> Visit f st w = (Some ErrTransport, st, failed_visit w ErrTransport)"
  by (simp add: Visit_def Let_def failed_visit_def)

lemma Visit_status:
  "site w = Response code body \<Longrightarrow> 203 \<le> code \<Longrightarrow>
   Visit f st w = (Some (ErrStatus code), st, failed_visit w (ErrStatus code))"
  by (simp add: Visit_def Let_def failed_visit_def)

lemma ScrapeEvents_fetched:
  assumes "site w = Response code body" and "code < 203"
  shows "ScrapeEvents tf n0 w =
           (case saveToCache tf (take (nat (validate_numEvents n0)) (valid_records (event_items body)))
                   (fetched w (validate_numEvents n0) body) of
              Exited w' \<Rightarrow> Exited w'
            | Returned (Some err, w2) \<Rightarrow>
                Returned (Inl (Errorf ''failed to save events to cache'' err), w2)
            | Returned (None, w2) \<Rightarrow>
                Returned (Inr (take (nat (validate_numEvents n0)) (valid_records (event_items body))), w2))"
proof -
  have clamp: "(if n0 < 2 then 2 else if n0 > 25 then 25 else n0) = validate_numEvents n0"
    by (simp add: validate_numEvents_def)
  show ?thesis
    unfolding ScrapeEvents_def clamp Let_def Visit_ok[OF assms] prod.case option.case
      traversal_events fetched_def
    by simp
qed

lemma ScrapeEvents_failed:
  assumes "Visit (onEventItem (validate_numEvents n0)) scrape0 w = (Some err, st, w')"
  shows "ScrapeEvents tf n0 w =
           Returned (Inl (Errorf ''failed to visit events page'' err),
                     w'\<lparr>stderr := stderr w' @ logged st\<rparr>)"
proof -
  have clamp: "(if n0 < 2 then 2 else if n0 > 25 then 25 else n0) = validate_numEvents n0"
    by (simp add: validate_numEvents_def)
  show ?thesis
    unfolding ScrapeEvents_def clamp Let_def
    by (simp add: assms)
qed

lemma fetched_fields [simp]:
  "files (fetched w n body) = files w"
  "dirs (fetched w n body) = dirs w"
  "UserCacheDir (fetched w n body) = UserCacheDir w"
  "stat_refused (fetched w n body) = stat_refused w"
  "mkdir_refused (fetched w n body) = mkdir_refused w"
  "create_refused (fetched w n body) = create_refused w"
  "open_refused (fetched w n body) = open_refused w"
  "write_refused (fetched w n body) = write_refused w"
  "clock (fetched w n body) = clock w"
  "site (fetched w n body) = site w"
  "requests (fetched w n body) = requests w + 1"
  by (simp_all add: fetched_def)

lemma os_Stat_fetched: "os_Stat p (fetched w n body) = os_Stat p w"
  by (simp add: os_Stat_def)

lemma cache_dir_ready_fetched:
  "cache_dir_ready (fetched w n body) root = cache_dir_ready w root"
  by (simp add: cache_dir_ready_def IsNotExist_def os_Stat_def)

lemma can_save_fetched: "can_save tf (fetched w n body) root = can_save tf w root"
  by (simp add: can_save_def cache_dir_ready_fetched)

lemma saveToCache_can_save:
  assumes "can_save tf w root"
  shows "\<exists>t. MarshalJSON tf (clock w) = Some t
           \<and> saveToCache tf evs w = Returned (None, saved w root (JSONText (written t evs)))"
proof -
  from assms have ready: "cache_dir_ready w root" by (simp add: can_save_def)
  from assms obtain t where t: "MarshalJSON tf (clock w) = Some t"
    by (auto simp: can_save_def)
  with assms show ?thesis
    by (simp add: saveToCache_eq[OF ready] can_save_def)
qed

lemma saveToCache_cannot_save:
  assumes "cache_dir_ready w root" and "\<not> can_save tf w root"
  shows "\<exists>err w'. saveToCache tf evs w = Returned (Some err, w')"
  using assms by (auto simp: saveToCache_eq can_save_def split: option.split)

lemma LoadCachedEvents_eq:
  assumes "cache_dir_ready w root"
  shows "LoadCachedEvents tf w =
           (case os_Open (cacheFile root) w of
              Inl err \<Rightarrow>
                Returned (Inl (Errorf ''!error opening cache file'' err), with_cache_dir w root)
            | Inr file \<Rightarrow>
                (case Decode tf file of
                   Inl err \<Rightarrow>
                     Returned (Inl (Errorf ''!error decoding cache file'' err),
                               with_cache_dir w root)
                 | Inr d \<Rightarrow>
                     Returned (Inr (Events d),
                               (with_cache_dir w root)
                                 \<lparr>stderr := stderr w @ [Loaded (length (Events d))]\<rparr>)))"
proof -
  have open_same: "os_Open p (with_cache_dir w root) = os_Open p w" for p
    by (simp add: os_Open_def split: option.split)
  show ?thesis
    by (simp add: LoadCachedEvents_def getCacheDir_ready[OF assms] cacheFile_def[symmetric]
          open_same Let_def split: sum.split)
qed

lemma saved_fields [simp]:
  "files (saved w root content) = (files w)(cacheFile root \<mapsto> content)"
  "UserCacheDir (saved w root content) = UserCacheDir w"
  "open_refused (saved w root content) = open_refused w"
  "stat_refused (saved w root content) = stat_refused w"
  "mkdir_refused (saved w root content) = mkdir_refused w"
  "clock (saved w root content) = clock w"
  "requests (saved w root content) = requests w"
  by (simp_all add: saved_def)

lemma cache_dir_ready_saved:
  "UserCacheDir w = Some root \<Longrightarrow> cache_dir_ready (saved w root content) root"
  by (auto simp: cache_dir_ready_def saved_def with_cache_dir_def IsNotExist_def os_Stat_def)

lemma load_after_save:
  assumes "UserCacheDir w = Some root"
    and "cacheFile root \<notin> open_refused w"
    and "UnmarshalJSON tf t = Some t'"
  shows "returned_events (LoadCachedEvents tf (saved w root (JSONText (written t evs))))
           = Some (map coerce_Event evs)"
  using assms
  by (simp add: LoadCachedEvents_eq[OF cache_dir_ready_saved[OF assms(1)]] os_Open_def
        Decode_def decode_written returned_events_def)

subsection \<open>White space around ASCII strings\<close>

lemma TrimLeftSpace_ascii: "ascii s \<Longrightarrow> TrimLeftSpace s = dropWhile ascii_space s"
  by (induction s) (simp_all add: ascii_def ascii_space_def[symmetric] Let_def)

lemma DecodeLastRune_ascii: "byte x < 128 \<Longrightarrow> DecodeLastRune (xs @ [x]) = (byte x, 1)"
  by (simp add: DecodeLastRune_def Let_def)

lemma TrimRightSpace_ascii: "ascii s \<Longrightarrow> TrimRightSpace s = rev (dropWhile ascii_space (rev s))"
proof (induction s rule: rev_induct)
  case Nil
  show ?case by (subst TrimRightSpace.simps) simp
next
  case (snoc x xs)
  then have x: "byte x < 128" and xs: "ascii xs" by (simp_all add: ascii_def)
  show ?case
    by (subst TrimRightSpace.simps)
       (simp add: DecodeLastRune_ascii[OF x] snoc.IH[OF xs] ascii_space_def[symmetric])
qed

lemma ascii_dropWhile: "ascii s \<Longrightarrow> ascii (dropWhile P s)"
  using set_dropWhileD by (fastforce simp: ascii_def)

lemma TrimSpace_ascii:
  "ascii s \<Longrightarrow> TrimSpace s = rev (dropWhile ascii_space (rev (dropWhile ascii_space s)))"
  by (simp add: TrimSpace_def TrimLeftSpace_ascii TrimRightSpace_ascii ascii_dropWhile)

subsection \<open>The example page\<close>

lemma trim_examples:
  "TrimSpace ''Quiz '' = ''Quiz''" "TrimSpace ''Quiz'' = ''Quiz''"
  "TrimSpace ''  '' = []" "TrimSpace [] = []"
  "TrimSpace ''Karaoke'' = ''Karaoke''" "TrimSpace ''Film'' = ''Film''"
  "TrimSpace '' 7pm '' = ''7pm''" "TrimSpace ''7pm'' = ''7pm''"
  "TrimSpace ''Union'' = ''Union''" "TrimSpace ''Free'' = ''Free''"
  "TrimSpace ''free'' = ''free''" "TrimSpace ''Music'' = ''Music''"
  "TrimSpace ''Sport'' = ''Sport''" "TrimSpace ''Arts'' = ''Arts''"
  by (simp_all add: TrimSpace_ascii ascii_def ascii_space_def IsSpace_def byte_def)

lemma lower_examples:
  "ToLower ''Free'' = ''free''" "ToLower ''free'' = ''free''" "ToLower ''Music'' = ''music''"
  "ToLower ''Sport'' = ''sport''" "ToLower ''Arts'' = ''arts''" "ToLower ''Film'' = ''film''"
  by code_simp+

lemma example_categories:
  "category_of (example_item t [''Free'', ''Music'']) = ''Music''"
  "category_of (example_item t [''free'']) = ''uncategorized''"
  "category_of (example_item t [''Sport'']) = ''Sport''"
  "category_of (example_item t [''Arts'', ''Film'']) = ''Arts, Film''"
  by (simp_all add: category_of_def example_item_def trim_examples lower_examples)

lemma example_extract:
  "extract_event (example_item ''Quiz '' links)
     = Some (example_event ''Quiz'' (category_of (example_item ''Quiz '' links)))"
  "extract_event (example_item ''  '' links) = None"
  "extract_event (example_item ''Karaoke'' links)
     = Some (example_event ''Karaoke'' (category_of (example_item ''Karaoke'' links)))"
  "extract_event (example_item ''Film'' links)
     = Some (example_event ''Film'' (category_of (example_item ''Film'' links)))"
  by (simp_all add: extract_event_def ChildText_def example_item_def example_event_def
        trim_examples category_of_def)

lemma example_records:
  "valid_records (event_items example_page) =
     [example_event ''Quiz'' ''Music'', example_event ''Karaoke'' ''uncategorized'',
      example_event ''Film'' ''Arts, Film'']"
  by (simp add: example_page_def valid_records_Cons valid_records_Nil example_extract
        example_categories)

subsection \<open>Claim C2: the category\<close>

lemma valid_records_mem:
  "ev \<in> set (valid_records es) \<Longrightarrow> \<exists>e \<in> set es. extract_event e = Some ev"
  by (induction es) (auto simp: valid_records_Cons valid_records_Nil split: option.splits)

lemma extract_event_Some:
  "extract_event e = Some ev \<Longrightarrow>
     Title ev = TrimSpace (ChildText (name_text e)) \<and> Title ev \<noteq> [] \<and> Category ev = category_of e"
  by (auto simp: extract_event_def Let_def split: if_splits)

lemma traversal_mem:
  assumes "ev \<in> set (events (handleOnHTML (onEventItem n) es scrape0))"
  shows "\<exists>e \<in> set es. extract_event e = Some ev"
proof -
  from assms have "ev \<in> set (take (nat n) (valid_records es))"
    by (simp add: traversal_events)
  then have "ev \<in> set (valid_records es)" by (rule in_set_takeD)
  then show ?thesis by (rule valid_records_mem)
qed















subsection \<open>The cap during the traversal\<close>






lemma validate_numEvents_id: "2 \<le> n \<Longrightarrow> n \<le> 25 \<Longrightarrow> validate_numEvents n = n"
  by (simp add: validate_numEvents_def)

lemma ScrapeEvents_can_save:
  assumes "site w = Response code body" and "code < 203" and "can_save tf w root"
  shows "\<exists>t. MarshalJSON tf (clock w) = Some t
           \<and> ScrapeEvents tf n0 w =
               Returned (Inr (take (nat (validate_numEvents n0)) (valid_records (event_items body))),
                         saved (fetched w (validate_numEvents n0) body) root
                           (JSONText (written t (take (nat (validate_numEvents n0))
                                                    (valid_records (event_items body))))))"
proof -
  let ?n = "validate_numEvents n0"
  let ?evs = "take (nat ?n) (valid_records (event_items body))"
  have "can_save tf (fetched w ?n body) root"
    using assms(3) by (simp add: can_save_fetched)
  from saveToCache_can_save[OF this, of ?evs]
  obtain t where t: "MarshalJSON tf (clock w) = Some t"
    and s: "saveToCache tf ?evs (fetched w ?n body)
              = Returned (None, saved (fetched w ?n body) root (JSONText (written t ?evs)))"
    by auto
  show ?thesis
    using t by (simp add: ScrapeEvents_fetched[OF assms(1,2)] s)
qed

lemma ScrapeEvents_returned:
  assumes "site w = Response code body" and "code < 203"
    and "returned_events (ScrapeEvents tf n0 w) = Some evs"
  shows "evs = take (nat (validate_numEvents n0)) (valid_records (event_items body))"
proof (cases "saveToCache tf (take (nat (validate_numEvents n0)) (valid_records (event_items body)))
                 (fetched w (validate_numEvents n0) body)")
  case (Exited w')
  with assms(3) show ?thesis
    by (simp add: ScrapeEvents_fetched[OF assms(1,2)] returned_events_def)
next
  case (Returned r)
  obtain err w2 where r: "r = (err, w2)" by (cases r)
  show ?thesis
  proof (cases err)
    case None
    with assms(3) Returned r show ?thesis
      by (simp add: ScrapeEvents_fetched[OF assms(1,2)] returned_events_def)
  next
    case (Some e)
    with assms(3) Returned r show ?thesis
      by (simp add: ScrapeEvents_fetched[OF assms(1,2)] returned_events_def)
  qed
qed

lemma example_world_can_save: "can_save example_timefmt example_world ''/home/u/.cache''"
  by (simp add: can_save_def cache_dir_ready_def example_world_def example_timefmt_def)

subsection \<open>Claim C4: containers without a title\<close>

lemma coerceUTF8_nonempty: "s \<noteq> [] \<Longrightarrow> coerceUTF8 s \<noteq> []"
  by (cases s) (simp_all add: Let_def replacement_def del: DecodeRune.simps)

lemma extract_event_None:
  "TrimSpace (ChildText (name_text e)) = [] \<Longrightarrow> extract_event e = None"
  by (simp add: extract_event_def)

lemma empty_title_step:
  assumes "TrimSpace (ChildText (name_text e)) = []"
  shows "onEventItem n e st =
           (if n \<le> eventCount st then st\<lparr>abort := True\<rparr>
            else st\<lparr>logged := logged st @ [EmptyTitle]\<rparr>)"
  using assms by (simp add: onEventItem_def)

lemma valid_records_append:
  "valid_records (xs @ ys) = valid_records xs @ valid_records ys"
  by (induction xs) (simp_all add: valid_records_Cons valid_records_Nil split: option.split)

lemma traversal_titles:
  "ev \<in> set (events (handleOnHTML (onEventItem n) es scrape0)) \<Longrightarrow> Title ev \<noteq> []"
  using traversal_mem extract_event_Some by blast

lemma ScrapeEvents_returns_traversal:
  assumes "ScrapeEvents tf n0 w = Returned (Inr evs, w')"
  shows "\<exists>code body. site w = Response code body \<and> code < 203
           \<and> evs = take (nat (validate_numEvents n0)) (valid_records (event_items body))"
proof (cases "site w")
  case Unreachable
  from ScrapeEvents_failed[OF Visit_unreachable[OF this]] assms show ?thesis by simp
next
  case (Response code body)
  show ?thesis
  proof (cases "code < 203")
    case True
    have "returned_events (ScrapeEvents tf n0 w) = Some evs"
      using assms by (simp add: returned_events_def)
    from ScrapeEvents_returned[OF Response True this] Response True show ?thesis by blast
  next
    case False
    then have "203 \<le> code" by simp
    from ScrapeEvents_failed[OF Visit_status[OF Response this]] assms show ?thesis by simp
  qed
qed

lemma saveToCache_none:
  assumes "saveToCache tf evs w = Returned (None, w')"
  shows "\<exists>root t. can_save tf w root \<and> MarshalJSON tf (clock w) = Some t
           \<and> w' = saved w root (JSONText (written t evs))"
proof (cases "UserCacheDir w")
  case None
  from saveToCache_exit[OF getCacheDir_no_root[OF this]] assms show ?thesis
    by (simp add: Fatalf_def)
next
  case (Some root)
  show ?thesis
  proof (cases "cache_dir_ready w root")
    case False
    with Some have "IsNotExist (os_Stat (appCacheDir root) w)" "appCacheDir root \<in> mkdir_refused w"
      by (simp_all add: cache_dir_ready_def)
    from saveToCache_exit[OF getCacheDir_refused[OF Some this]] assms show ?thesis
      by (simp add: Fatalf_def)
  next
    case True
    show ?thesis
    proof (cases "can_save tf w root")
      case False
      from saveToCache_cannot_save[OF True False, of evs] assms show ?thesis by auto
    next
      case yes: True
      from saveToCache_can_save[OF yes, of evs] assms yes show ?thesis by auto
    qed
  qed
qed

lemma ScrapeEvents_persisted:
  assumes "ScrapeEvents tf n0 w = Returned (Inr evs, w')"
  shows "\<exists>root t. UserCacheDir w = Some root
           \<and> files w' (cacheFile root) = Some (JSONText (written t evs))"
proof -
  from ScrapeEvents_returns_traversal[OF assms] obtain code body where
    site: "site w = Response code body" "code < 203"
    and evs: "evs = take (nat (validate_numEvents n0)) (valid_records (event_items body))"
    by blast
  let ?w1 = "fetched w (validate_numEvents n0) body"
  from assms have "saveToCache tf evs ?w1 = Returned (None, w')"
    by (simp add: ScrapeEvents_fetched[OF site] evs
          split: outcome.splits prod.splits option.splits)
  from saveToCache_none[OF this] obtain root t where
    "can_save tf ?w1 root" and w': "w' = saved ?w1 root (JSONText (written t evs))"
    by blast
  then have "UserCacheDir w = Some root"
    by (simp add: can_save_def cache_dir_ready_def)
  with w' show ?thesis by auto
qed

text \<open>
  Claim C4. A container whose trimmed title is empty gives no record: the handler leaves
  the events as they are and, below the cap, only logs the warning; the records of a
  traversal are the same with and without the container; every record of a traversal has
  a title that is not empty, and so has every record \<^verbatim>\<open>ScrapeEvents\<close> returns, which are
  the records it has written to the cache file (the title that is written, after the
  coercion to valid UTF-8, is not empty either).
\<close>

theorem empty_title_skipped:
  assumes "TrimSpace (ChildText (name_text e)) = []"
  shows "events (onEventItem n e st) = events st
       \<and> (eventCount st < n \<longrightarrow> onEventItem n e st = st\<lparr>logged := logged st @ [EmptyTitle]\<rparr>)
       \<and> events (handleOnHTML (onEventItem n) (pre @ e # post) scrape0)
           = events (handleOnHTML (onEventItem n) (pre @ post) scrape0)
       \<and> length (events (handleOnHTML (onEventItem n) (pre @ e # post) scrape0))
           = length (events (handleOnHTML (onEventItem n) (pre @ post) scrape0))
       \<and> (\<forall>ev \<in> set (events (handleOnHTML (onEventItem n) es scrape0)).
             Title ev \<noteq> [] \<and> coerceUTF8 (Title ev) \<noteq> [])
       \<and> (\<forall>evs w'. ScrapeEvents tf n w = Returned (Inr evs, w') \<longrightarrow>
             (\<forall>ev \<in> set evs. Title ev \<noteq> [] \<and> coerceUTF8 (Title ev) \<noteq> [])
             \<and> (\<exists>root t. UserCacheDir w = Some root
                   \<and> files w' (cacheFile root) = Some (JSONText (written t evs))))"
proof -
  have step: "events (onEventItem n e st) = events st"
    by (simp add: empty_title_step[OF assms])
  have warn: "eventCount st < n \<longrightarrow> onEventItem n e st = st\<lparr>logged := logged st @ [EmptyTitle]\<rparr>"
    by (simp add: empty_title_step[OF assms])
  have "valid_records (pre @ e # post) = valid_records (pre @ post)"
    by (simp add: valid_records_append valid_records_Cons extract_event_None[OF assms])
  then have same: "events (handleOnHTML (onEventItem n) (pre @ e # post) scrape0)
           = events (handleOnHTML (onEventItem n) (pre @ post) scrape0)"
    by (simp only: traversal_events)
  have titles: "\<forall>ev \<in> set (events (handleOnHTML (onEventItem n) es scrape0)).
             Title ev \<noteq> [] \<and> coerceUTF8 (Title ev) \<noteq> []"
    using traversal_titles coerceUTF8_nonempty by blast
  have kept: "\<forall>evs w'. ScrapeEvents tf n w = Returned (Inr evs, w') \<longrightarrow>
             (\<forall>ev \<in> set evs. Title ev \<noteq> [] \<and> coerceUTF8 (Title ev) \<noteq> [])
             \<and> (\<exists>root t. UserCacheDir w = Some root
                   \<and> files w' (cacheFile root) = Some (JSONText (written t evs)))"
  proof (intro allI impI conjI ballI)
    fix evs w' ev
    assume r: "ScrapeEvents tf n w = Returned (Inr evs, w')" and ev: "ev \<in> set evs"
    from ScrapeEvents_returns_traversal[OF r] obtain code body where
      "site w = Response code body" and
      "evs = take (nat (validate_numEvents n)) (valid_records (event_items body))"
      by blast
    then have "evs = events (handleOnHTML (onEventItem (validate_numEvents n)) (event_items body) scrape0)"
      by (simp only: traversal_events)
    with ev show "Title ev \<noteq> []" using traversal_titles by blast
    then show "coerceUTF8 (Title ev) \<noteq> []" by (rule coerceUTF8_nonempty)
  next
    fix evs w'
    assume "ScrapeEvents tf n w = Returned (Inr evs, w')"
    then show "\<exists>root t. UserCacheDir w = Some root
                   \<and> files w' (cacheFile root) = Some (JSONText (written t evs))"
      by (rule ScrapeEvents_persisted)
  qed
  from step warn same titles kept show ?thesis by simp
qed

lemma example_blank_title: "TrimSpace (ChildText (name_text (example_item ''  '' links))) = []"
  by (simp add: ChildText_def example_item_def trim_examples)

theorem empty_title_skipped_witness:
  "TrimSpace (ChildText (name_text (example_item ''  '' [''Sport'']))) = []
   \<and> eventCount scrape0 < 2
   \<and> onEventItem 2 (example_item ''  '' [''Sport'']) scrape0
       = scrape0\<lparr>logged := logged scrape0 @ [EmptyTitle]\<rparr>
   \<and> events (handleOnHTML (onEventItem 2)
               ([example_item ''Quiz '' [''Free'', ''Music'']]
                  @ example_item ''  '' [''Sport'']
                  # [example_item ''Karaoke'' [''free''], example_item ''Film'' [''Arts'', ''Film'']])
               scrape0)
       = events (handleOnHTML (onEventItem 2)
                  ([example_item ''Quiz '' [''Free'', ''Music'']]
                     @ [example_item ''Karaoke'' [''free''], example_item ''Film'' [''Arts'', ''Film'']])
                  scrape0)"
proof -
  have blank: "TrimSpace (ChildText (name_text (example_item ''  '' [''Sport'']))) = []"
    by (rule example_blank_title)
  have below: "eventCount scrape0 < 2" by (simp add: scrape0_def)
  note skipped = empty_title_skipped[OF blank, of 2 scrape0
      "[example_item ''Quiz '' [''Free'', ''Music'']]"
      "[example_item ''Karaoke'' [''free''], example_item ''Film'' [''Arts'', ''Film'']]"]
  from skipped[THEN conjunct2, THEN conjunct1] have "eventCount scrape0 < 2 \<longrightarrow>
      onEventItem 2 (example_item ''  '' [''Sport'']) scrape0
        = scrape0\<lparr>logged := logged scrape0 @ [EmptyTitle]\<rparr>" .
  with below have warn: "onEventItem 2 (example_item ''  '' [''Sport'']) scrape0
        = scrape0\<lparr>logged := logged scrape0 @ [EmptyTitle]\<rparr>"
    by (rule rev_mp)
  from skipped[THEN conjunct2, THEN conjunct2, THEN conjunct1]
  have same: "events (handleOnHTML (onEventItem 2)
               ([example_item ''Quiz '' [''Free'', ''Music'']]
                  @ example_item ''  '' [''Sport'']
                  # [example_item ''Karaoke'' [''free''], example_item ''Film'' [''Arts'', ''Film'']])
               scrape0)
       = events (handleOnHTML (onEventItem 2)
                  ([example_item ''Quiz '' [''Free'', ''Music'']]
                     @ [example_item ''Karaoke'' [''free''], example_item ''Film'' [''Arts'', ''Film'']])
                  scrape0)" .
  from blank below warn same show ?thesis by (intro conjI)
qed

subsection \<open>Claim C5: a fetch that fails\<close>

text \<open>
  Claim C5. When the fetch fails, because the host cannot be reached or because the
  status code is one the collector takes for an error (203 and above, so every status
  outside 2xx), \<^verbatim>\<open>ScrapeEvents\<close> returns the error of the visit and no events, and the
  files and directories, the cache file among them, are what they were: one request
  was sent and two lines were logged.
\<close>

theorem fetch_failure:
  assumes "site w = Unreachable \<or> (\<exists>code body. site w = Response code body \<and> 203 \<le> code)"
  shows "\<exists>err. ScrapeEvents tf n w
                 = Returned (Inl (Errorf ''failed to visit events page'' err), failed_visit w err)
               \<and> returned_events (ScrapeEvents tf n w) = None
               \<and> files (world_after (ScrapeEvents tf n w)) = files w
               \<and> dirs (world_after (ScrapeEvents tf n w)) = dirs w"
proof -
  have "\<exists>err. Visit (onEventItem (validate_numEvents n)) scrape0 w
                = (Some err, scrape0, failed_visit w err)"
  proof (cases "site w")
    case Unreachable
    from Visit_unreachable[OF this] show ?thesis by (rule exI)
  next
    case (Response code body)
    with assms have "203 \<le> code" by simp
    from Visit_status[OF Response this] show ?thesis by (rule exI)
  qed
  then obtain err where
    v: "Visit (onEventItem (validate_numEvents n)) scrape0 w = (Some err, scrape0, failed_visit w err)"
    by (rule exE)
  have r: "ScrapeEvents tf n w
          = Returned (Inl (Errorf ''failed to visit events page'' err), failed_visit w err)"
    by (simp add: ScrapeEvents_failed[OF v] scrape0_def)
  moreover from this have "returned_events (ScrapeEvents tf n w) = None"
    by (simp add: returned_events_def)
  moreover from r have "files (world_after (ScrapeEvents tf n w)) = files w"
    by (simp add: world_after_def failed_visit_def)
  moreover from r have "dirs (world_after (ScrapeEvents tf n w)) = dirs w"
    by (simp add: world_after_def failed_visit_def)
  ultimately show ?thesis by blast
qed

theorem fetch_failure_witness:
  "site (example_offline 0) = Unreachable
   \<and> returned_events (ScrapeEvents example_timefmt 10 (example_offline 0)) = None
   \<and> files (world_after (ScrapeEvents example_timefmt 10 (example_offline 0)))
       = files (example_offline 0)
   \<and> site (example_server_error 0) = Response 503 example_page \<and> (203::nat) \<le> 503
   \<and> returned_events (ScrapeEvents example_timefmt 10 (example_server_error 0)) = None
   \<and> files (world_after (ScrapeEvents example_timefmt 10 (example_server_error 0)))
       = files (example_server_error 0)"
proof -
  have off: "site (example_offline 0) = Unreachable"
    by (simp add: example_offline_def example_cached_def)
  have err: "site (example_server_error 0) = Response 503 example_page"
    by (simp add: example_server_error_def example_cached_def)
  have a: "site (example_offline 0) = Unreachable
        \<or> (\<exists>code body. site (example_offline 0) = Response code body \<and> 203 \<le> code)"
    using off by (rule disjI1)
  have b: "site (example_server_error 0) = Unreachable
        \<or> (\<exists>code body. site (example_server_error 0) = Response code body \<and> 203 \<le> code)"
    using err by simp
  from fetch_failure[OF a, of example_timefmt 10]
  have 1: "returned_events (ScrapeEvents example_timefmt 10 (example_offline 0)) = None
         \<and> files (world_after (ScrapeEvents example_timefmt 10 (example_offline 0)))
             = files (example_offline 0)"
    by blast
  from fetch_failure[OF b, of example_timefmt 10]
  have 2: "returned_events (ScrapeEvents example_timefmt 10 (example_server_error 0)) = None
         \<and> files (world_after (ScrapeEvents example_timefmt 10 (example_server_error 0)))
             = files (example_server_error 0)"
    by blast
  from off err 1 2 show ?thesis by simp
qed

subsection \<open>Claim C1: the freshness test\<close>

lemma os_Open_absent: "files w p = None \<Longrightarrow> \<exists>err. os_Open p w = Inl err"
  by (simp add: os_Open_def)

text \<open>
  Claim C1, as amended. \<^verbatim>\<open>ShouldScrape\<close> gives no answer in two cases, where
  \<^verbatim>\<open>getCacheDir\<close> ends the process: \<^verbatim>\<open>os.UserCacheDir\<close> fails, or \<^verbatim>\<open>os.Stat\<close> reports
  that the cache directory does not exist and \<^verbatim>\<open>os.Mkdir\<close> fails. In every other case
  (the directory exists, or was made, or \<^verbatim>\<open>os.Stat\<close> failed for another reason)
  \<^verbatim>\<open>ShouldScrape\<close> returns true when the cache file is absent, when it cannot be opened
  and when it cannot be decoded; for a decoded cache it returns false when the time
  elapsed since \<open>LastScraped\<close> is less than 12 hours (43200000000000 nanoseconds) and
  true when it is 12 hours or more.
\<close>

theorem freshness:
  "(UserCacheDir w = None \<longrightarrow> exited (ShouldScrape tf w))
   \<and> (UserCacheDir w = Some root \<and> os_Stat (appCacheDir root) w = Some ErrNotExist
        \<and> appCacheDir root \<in> mkdir_refused w \<longrightarrow> exited (ShouldScrape tf w))
   \<and> (UserCacheDir w = Some root
        \<and> (os_Stat (appCacheDir root) w \<noteq> Some ErrNotExist \<or> appCacheDir root \<notin> mkdir_refused w)
        \<longrightarrow>
          (files w (cacheFile root) = None \<longrightarrow>
             ShouldScrape tf w = Returned (True, with_cache_dir w root))
        \<and> (os_Open (cacheFile root) w = Inl err \<longrightarrow>
             ShouldScrape tf w = Returned (True, with_cache_dir w root))
        \<and> (os_Open (cacheFile root) w = Inr c \<and> Decode tf c = Inl err' \<longrightarrow>
             ShouldScrape tf w = Returned (True, with_cache_dir w root))
        \<and> (os_Open (cacheFile root) w = Inr c \<and> Decode tf c = Inr d
             \<and> clock w - LastScraped d < 43200000000000 \<longrightarrow>
             ShouldScrape tf w = Returned (False, with_cache_dir w root))
        \<and> (os_Open (cacheFile root) w = Inr c \<and> Decode tf c = Inr d
             \<and> 43200000000000 \<le> clock w - LastScraped d \<longrightarrow>
             ShouldScrape tf w = Returned (True, with_cache_dir w root)))"
proof (intro conjI)
  show "UserCacheDir w = None \<longrightarrow> exited (ShouldScrape tf w)"
    by (simp add: ShouldScrape_def getCacheDir_no_root Fatalf_def exited_def)
  show "UserCacheDir w = Some root \<and> os_Stat (appCacheDir root) w = Some ErrNotExist
        \<and> appCacheDir root \<in> mkdir_refused w \<longrightarrow> exited (ShouldScrape tf w)"
  proof
    assume a: "UserCacheDir w = Some root \<and> os_Stat (appCacheDir root) w = Some ErrNotExist
               \<and> appCacheDir root \<in> mkdir_refused w"
    then have "IsNotExist (os_Stat (appCacheDir root) w)" by (simp add: IsNotExist_def)
    with a have "getCacheDir w = Fatalf w" by (simp add: getCacheDir_refused)
    then show "exited (ShouldScrape tf w)"
      by (simp add: ShouldScrape_def Fatalf_def exited_def)
  qed
  show "UserCacheDir w = Some root
        \<and> (os_Stat (appCacheDir root) w \<noteq> Some ErrNotExist \<or> appCacheDir root \<notin> mkdir_refused w)
        \<longrightarrow>
          (files w (cacheFile root) = None \<longrightarrow>
             ShouldScrape tf w = Returned (True, with_cache_dir w root))
        \<and> (os_Open (cacheFile root) w = Inl err \<longrightarrow>
             ShouldScrape tf w = Returned (True, with_cache_dir w root))
        \<and> (os_Open (cacheFile root) w = Inr c \<and> Decode tf c = Inl err' \<longrightarrow>
             ShouldScrape tf w = Returned (True, with_cache_dir w root))
        \<and> (os_Open (cacheFile root) w = Inr c \<and> Decode tf c = Inr d
             \<and> clock w - LastScraped d < 43200000000000 \<longrightarrow>
             ShouldScrape tf w = Returned (False, with_cache_dir w root))
        \<and> (os_Open (cacheFile root) w = Inr c \<and> Decode tf c = Inr d
             \<and> 43200000000000 \<le> clock w - LastScraped d \<longrightarrow>
             ShouldScrape tf w = Returned (True, with_cache_dir w root))"
  proof
    assume "UserCacheDir w = Some root
        \<and> (os_Stat (appCacheDir root) w \<noteq> Some ErrNotExist \<or> appCacheDir root \<notin> mkdir_refused w)"
    then have ready: "cache_dir_ready w root"
      by (simp add: cache_dir_ready_def IsNotExist_def)
    have h: "12 * Hour = 43200000000000" by (simp add: Hour_def)
    have absent: "files w (cacheFile root) = None \<Longrightarrow>
                    ShouldScrape tf w = Returned (True, with_cache_dir w root)"
      using os_Open_absent[of w "cacheFile root"]
      by (auto simp: ShouldScrape_eq[OF ready])
    show "(files w (cacheFile root) = None \<longrightarrow>
             ShouldScrape tf w = Returned (True, with_cache_dir w root))
        \<and> (os_Open (cacheFile root) w = Inl err \<longrightarrow>
             ShouldScrape tf w = Returned (True, with_cache_dir w root))
        \<and> (os_Open (cacheFile root) w = Inr c \<and> Decode tf c = Inl err' \<longrightarrow>
             ShouldScrape tf w = Returned (True, with_cache_dir w root))
        \<and> (os_Open (cacheFile root) w = Inr c \<and> Decode tf c = Inr d
             \<and> clock w - LastScraped d < 43200000000000 \<longrightarrow>
             ShouldScrape tf w = Returned (False, with_cache_dir w root))
        \<and> (os_Open (cacheFile root) w = Inr c \<and> Decode tf c = Inr d
             \<and> 43200000000000 \<le> clock w - LastScraped d \<longrightarrow>
             ShouldScrape tf w = Returned (True, with_cache_dir w root))"
      using absent by (simp add: ShouldScrape_eq[OF ready] h)
  qed
qed

lemma example_paths:
  "appCacheDir ''/home/u/.cache'' = ''/home/u/.cache/rhs-scraper''"
  "cacheFile ''/home/u/.cache'' = ''/home/u/.cache/rhs-scraper/events.json''"
  by (simp_all add: cacheFile_def appCacheDir_def filepath_Join_def)

lemma example_world_ready: "cache_dir_ready example_world ''/home/u/.cache''"
  by (simp add: cache_dir_ready_def example_world_def)

lemma example_cached_ready: "cache_dir_ready (example_cached now) ''/home/u/.cache''"
  by (simp add: cache_dir_ready_def example_cached_def example_world_def example_paths
        IsNotExist_def os_Stat_def)

lemma example_corrupt_ready: "cache_dir_ready example_corrupt ''/home/u/.cache''"
  by (simp add: cache_dir_ready_def example_corrupt_def example_world_def example_paths
        IsNotExist_def os_Stat_def)

lemma example_cached_open:
  "os_Open (cacheFile ''/home/u/.cache'') (example_cached now)
     = Inr (JSONText (written ''2023-11-14T22:13:20Z'' [example_event ''Quiz'' ''Music'']))"
  by (simp add: os_Open_def example_cached_def example_world_def example_paths)

lemma example_corrupt_open:
  "os_Open (cacheFile ''/home/u/.cache'') example_corrupt = Inr Malformed"
  by (simp add: os_Open_def example_corrupt_def example_world_def example_paths)

lemma example_world_absent: "files example_world (cacheFile ''/home/u/.cache'') = None"
  by (simp add: example_world_def)

lemma ValidString_ascii: "ascii s \<Longrightarrow> ValidString s"
  by (induction s) (simp_all add: ascii_def RuneError_def Let_def)

lemma example_event_valid: "ValidEvent (example_event ''Quiz'' ''Music'')"
  by (simp add: ValidEvent_def example_event_def RuneError_def byte_def)

lemma example_cached_decode:
  "Decode example_timefmt
     (JSONText (written ''2023-11-14T22:13:20Z'' [example_event ''Quiz'' ''Music'']))
     = Inr \<lparr>LastScraped = 1700000000000000000, Events = [example_event ''Quiz'' ''Music'']\<rparr>"
  by (simp add: Decode_def decode_written example_timefmt_def
        coerce_Event_valid[OF example_event_valid])

lemma example_cached_clock: "clock (example_cached now) = now"
  by (simp add: example_cached_def)

lemma example_unsearchable_facts:
  "UserCacheDir example_unsearchable = Some ''/home/u/.cache''"
  "os_Stat (appCacheDir ''/home/u/.cache'') example_unsearchable = Some ErrPermission"
  "os_Open (cacheFile ''/home/u/.cache'') example_unsearchable = Inl ErrPermission"
  "cacheFile ''/home/u/.cache'' \<in> create_refused example_unsearchable"
  "site example_unsearchable = Response 200 example_page"
  by (simp_all add: example_unsearchable_def example_cached_def example_world_def example_paths
        os_Stat_def os_Open_def)

lemma example_no_mkdir_facts:
  "UserCacheDir example_no_mkdir = Some ''/home/u/.cache''"
  "os_Stat (appCacheDir ''/home/u/.cache'') example_no_mkdir = Some ErrNotExist"
  "appCacheDir ''/home/u/.cache'' \<in> mkdir_refused example_no_mkdir"
  "files example_no_mkdir (cacheFile ''/home/u/.cache'') = None"
  "site example_no_mkdir = Response 200 example_page"
  by (simp_all add: example_no_mkdir_def example_world_def example_paths os_Stat_def)

lemma example_ready_facts:
  "UserCacheDir example_world = Some ''/home/u/.cache''
   \<and> (os_Stat (appCacheDir ''/home/u/.cache'') example_world \<noteq> Some ErrNotExist
        \<or> appCacheDir ''/home/u/.cache'' \<notin> mkdir_refused example_world)"
  "UserCacheDir example_corrupt = Some ''/home/u/.cache''
   \<and> (os_Stat (appCacheDir ''/home/u/.cache'') example_corrupt \<noteq> Some ErrNotExist
        \<or> appCacheDir ''/home/u/.cache'' \<notin> mkdir_refused example_corrupt)"
  "UserCacheDir (example_cached now) = Some ''/home/u/.cache''
   \<and> (os_Stat (appCacheDir ''/home/u/.cache'') (example_cached now) \<noteq> Some ErrNotExist
        \<or> appCacheDir ''/home/u/.cache'' \<notin> mkdir_refused (example_cached now))"
  "UserCacheDir example_unsearchable = Some ''/home/u/.cache''
   \<and> (os_Stat (appCacheDir ''/home/u/.cache'') example_unsearchable \<noteq> Some ErrNotExist
        \<or> appCacheDir ''/home/u/.cache'' \<notin> mkdir_refused example_unsearchable)"
  by (simp_all add: example_unsearchable_facts example_corrupt_def example_cached_def
        example_world_def)

theorem freshness_witness:
  "exited (ShouldScrape example_timefmt (example_world\<lparr>UserCacheDir := None\<rparr>))
   \<and> exited (ShouldScrape example_timefmt example_no_mkdir)
   \<and> files example_world (cacheFile ''/home/u/.cache'') = None
   \<and> returned_value (ShouldScrape example_timefmt example_world) = Some True
   \<and> os_Stat (appCacheDir ''/home/u/.cache'') example_unsearchable = Some ErrPermission
   \<and> os_Open (cacheFile ''/home/u/.cache'') example_unsearchable = Inl ErrPermission
   \<and> returned_value (ShouldScrape example_timefmt example_unsearchable) = Some True
   \<and> returned_value (ShouldScrape example_timefmt example_corrupt) = Some True
   \<and> returned_value (ShouldScrape example_timefmt (example_cached 1700043199999999999)) = Some False
   \<and> returned_value (ShouldScrape example_timefmt (example_cached 1700043200000000000)) = Some True"
proof -
  let ?root = "''/home/u/.cache''"
  let ?d = "\<lparr>LastScraped = 1700000000000000000, Events = [example_event ''Quiz'' ''Music'']\<rparr>"
  let ?text = "JSONText (written ''2023-11-14T22:13:20Z'' [example_event ''Quiz'' ''Music''])"
  have "UserCacheDir (example_world\<lparr>UserCacheDir := None\<rparr>) = None" by simp
  with freshness[where w = "example_world\<lparr>UserCacheDir := None\<rparr>" and tf = example_timefmt,
      THEN conjunct1]
  have no_root: "exited (ShouldScrape example_timefmt (example_world\<lparr>UserCacheDir := None\<rparr>))"
    by (rule mp)
  have "UserCacheDir example_no_mkdir = Some ?root
        \<and> os_Stat (appCacheDir ?root) example_no_mkdir = Some ErrNotExist
        \<and> appCacheDir ?root \<in> mkdir_refused example_no_mkdir"
    by (simp add: example_no_mkdir_facts)
  with freshness[where w = example_no_mkdir and tf = example_timefmt and root = ?root,
      THEN conjunct2, THEN conjunct1]
  have no_mkdir: "exited (ShouldScrape example_timefmt example_no_mkdir)"
    by (rule mp)
  note world = freshness[where w = example_world and tf = example_timefmt and root = ?root,
      THEN conjunct2, THEN conjunct2, THEN mp, OF example_ready_facts(1)]
  have absent: "ShouldScrape example_timefmt example_world
                  = Returned (True, with_cache_dir example_world ?root)"
    using world[THEN conjunct1] example_world_absent by (rule mp)
  note unsearchable = freshness[where w = example_unsearchable and tf = example_timefmt
      and root = ?root and err = ErrPermission,
      THEN conjunct2, THEN conjunct2, THEN mp, OF example_ready_facts(4)]
  have closed: "ShouldScrape example_timefmt example_unsearchable
                  = Returned (True, with_cache_dir example_unsearchable ?root)"
    using unsearchable[THEN conjunct2, THEN conjunct1] example_unsearchable_facts(3)
    by (rule mp)
  note broken = freshness[where w = example_corrupt and tf = example_timefmt and root = ?root
      and c = Malformed and err' = ErrSyntax,
      THEN conjunct2, THEN conjunct2, THEN mp, OF example_ready_facts(2)]
  have "os_Open (cacheFile ?root) example_corrupt = Inr Malformed
        \<and> Decode example_timefmt Malformed = Inl ErrSyntax"
    by (simp add: example_corrupt_open Decode_def)
  with broken[THEN conjunct2, THEN conjunct2, THEN conjunct1]
  have corrupt: "ShouldScrape example_timefmt example_corrupt
                  = Returned (True, with_cache_dir example_corrupt ?root)"
    by (rule mp)
  note early = freshness[where w = "example_cached 1700043199999999999" and tf = example_timefmt
      and root = ?root and c = ?text and d = ?d,
      THEN conjunct2, THEN conjunct2, THEN mp, OF example_ready_facts(3)]
  have "os_Open (cacheFile ?root) (example_cached 1700043199999999999) = Inr ?text
        \<and> Decode example_timefmt ?text = Inr ?d
        \<and> clock (example_cached 1700043199999999999) - LastScraped ?d < 43200000000000"
    by (simp add: example_cached_open example_cached_decode example_cached_clock)
  with early[THEN conjunct2, THEN conjunct2, THEN conjunct2, THEN conjunct1]
  have fresh: "ShouldScrape example_timefmt (example_cached 1700043199999999999)
                  = Returned (False, with_cache_dir (example_cached 1700043199999999999) ?root)"
    by (rule mp)
  note late = freshness[where w = "example_cached 1700043200000000000" and tf = example_timefmt
      and root = ?root and c = ?text and d = ?d,
      THEN conjunct2, THEN conjunct2, THEN mp, OF example_ready_facts(3)]
  have "os_Open (cacheFile ?root) (example_cached 1700043200000000000) = Inr ?text
        \<and> Decode example_timefmt ?text = Inr ?d
        \<and> 43200000000000 \<le> clock (example_cached 1700043200000000000) - LastScraped ?d"
    by (simp add: example_cached_open example_cached_decode example_cached_clock)
  with late[THEN conjunct2, THEN conjunct2, THEN conjunct2, THEN conjunct2]
  have stale: "ShouldScrape example_timefmt (example_cached 1700043200000000000)
                  = Returned (True, with_cache_dir (example_cached 1700043200000000000) ?root)"
    by (rule mp)
  show ?thesis
    by (simp add: no_root no_mkdir example_world_absent example_unsearchable_facts absent closed
          corrupt fresh stale returned_value_def)
qed

theorem freshness_counterexample:
  "files example_no_mkdir (cacheFile ''/home/u/.cache'') = None
   \<and> exited (ShouldScrape example_timefmt example_no_mkdir)
   \<and> returned_value (ShouldScrape example_timefmt example_no_mkdir) = None"
proof -
  have absent: "files example_no_mkdir (cacheFile ''/home/u/.cache'') = None"
    by (rule example_no_mkdir_facts)
  have "IsNotExist (os_Stat (appCacheDir ''/home/u/.cache'') example_no_mkdir)"
    by (simp add: IsNotExist_def example_no_mkdir_facts)
  with example_no_mkdir_facts(1) have "getCacheDir example_no_mkdir = Fatalf example_no_mkdir"
    using example_no_mkdir_facts(3) by (rule getCacheDir_refused)
  then have r: "ShouldScrape example_timefmt example_no_mkdir = Fatalf example_no_mkdir"
    by (rule ShouldScrape_exit)
  have "exited (ShouldScrape example_timefmt example_no_mkdir)"
    by (simp add: r exited_Fatalf)
  moreover have "returned_value (ShouldScrape example_timefmt example_no_mkdir) = None"
    by (simp add: r Fatalf_def returned_value_def)
  ultimately show ?thesis using absent by (intro conjI)
qed

subsection \<open>Claim C6: saving, then loading\<close>

lemma saveToCache_root:
  assumes "saveToCache tf evs w = Returned (None, w1)" and "UserCacheDir w = Some root"
  shows "\<exists>t. MarshalJSON tf (clock w) = Some t \<and> w1 = saved w root (JSONText (written t evs))"
proof -
  from saveToCache_none[OF assms(1)] obtain root' t where
    "can_save tf w root'" and t: "MarshalJSON tf (clock w) = Some t"
    and w1: "w1 = saved w root' (JSONText (written t evs))"
    by blast
  then have "UserCacheDir w = Some root'" by (simp add: can_save_def cache_dir_ready_def)
  with assms(2) have "root' = root" by simp
  with t w1 show ?thesis by simp
qed

text \<open>
  Claim C6, as amended. When \<^verbatim>\<open>saveToCache\<close> has returned without error, the cache
  file may be opened and the timestamp text that was written is one the decoder accepts,
  \<^verbatim>\<open>LoadCachedEvents\<close> returns the saved events after the encoder's coercion to valid
  UTF-8, in the same order; for events whose five fields are valid UTF-8 that is the saved
  sequence itself, whatever the timestamp.
\<close>

theorem save_then_load:
  assumes "saveToCache tf evs w = Returned (None, w1)"
    and "UserCacheDir w = Some root"
    and "cacheFile root \<notin> open_refused w"
    and "\<forall>t. MarshalJSON tf (clock w) = Some t \<longrightarrow> UnmarshalJSON tf t \<noteq> None"
  shows "returned_events (LoadCachedEvents tf w1) = Some (map coerce_Event evs)
       \<and> ((\<forall>e \<in> set evs. ValidEvent e) \<longrightarrow>
            returned_events (LoadCachedEvents tf w1) = Some evs)"
proof -
  from saveToCache_root[OF assms(1,2)] obtain t where
    t: "MarshalJSON tf (clock w) = Some t"
    and w1: "w1 = saved w root (JSONText (written t evs))"
    by blast
  from assms(4) t obtain t' where "UnmarshalJSON tf t = Some t'" by auto
  from load_after_save[OF assms(2,3) this, of evs]
  have loaded: "returned_events (LoadCachedEvents tf w1) = Some (map coerce_Event evs)"
    by (simp only: w1)
  then show ?thesis
    using map_coerce_Event_valid[of evs] by auto
qed

lemma example_marshal:
  "MarshalJSON example_timefmt (clock example_world) = Some ''2023-11-14T22:13:20Z''"
  by (simp add: example_timefmt_def example_world_def)

lemma example_unmarshal:
  "UnmarshalJSON example_timefmt ''2023-11-14T22:13:20Z'' = Some 1700000000000000000"
  by (simp add: example_timefmt_def)

lemma example_save:
  "saveToCache example_timefmt evs example_world
     = Returned (None, saved example_world ''/home/u/.cache''
                         (JSONText (written ''2023-11-14T22:13:20Z'' evs)))"
  using saveToCache_can_save[OF example_world_can_save, of evs]
  by (simp add: example_marshal)

lemma example_world_root: "UserCacheDir example_world = Some ''/home/u/.cache''"
  by (simp add: example_world_def)

lemma example_world_open: "cacheFile ''/home/u/.cache'' \<notin> open_refused example_world"
  by (simp add: example_world_def)

lemma example_world_text:
  "\<forall>t. MarshalJSON example_timefmt (clock example_world) = Some t
        \<longrightarrow> UnmarshalJSON example_timefmt t \<noteq> None"
  by (simp add: example_marshal example_unmarshal)

theorem save_then_load_witness:
  "saveToCache example_timefmt [example_event ''Quiz'' ''Music'', example_event ''Film'' ''Arts, Film'']
       example_world
     = Returned (None, saved example_world ''/home/u/.cache''
         (JSONText (written ''2023-11-14T22:13:20Z''
            [example_event ''Quiz'' ''Music'', example_event ''Film'' ''Arts, Film''])))
   \<and> ValidEvent (example_event ''Quiz'' ''Music'')
   \<and> ValidEvent (example_event ''Film'' ''Arts, Film'')
   \<and> returned_events
        (LoadCachedEvents example_timefmt
           (saved example_world ''/home/u/.cache''
              (JSONText (written ''2023-11-14T22:13:20Z''
                 [example_event ''Quiz'' ''Music'', example_event ''Film'' ''Arts, Film'']))))
       = Some [example_event ''Quiz'' ''Music'', example_event ''Film'' ''Arts, Film'']"
proof -
  let ?evs = "[example_event ''Quiz'' ''Music'', example_event ''Film'' ''Arts, Film'']"
  have v1: "ValidEvent (example_event ''Quiz'' ''Music'')"
    and v2: "ValidEvent (example_event ''Film'' ''Arts, Film'')"
    by (simp_all add: ValidEvent_def example_event_def RuneError_def byte_def)
  then have valid: "\<forall>e \<in> set ?evs. ValidEvent e" by simp
  from save_then_load[OF example_save example_world_root example_world_open
      example_world_text, of ?evs, THEN conjunct2]
  have "(\<forall>e \<in> set ?evs. ValidEvent e) \<longrightarrow>
          returned_events
            (LoadCachedEvents example_timefmt
               (saved example_world ''/home/u/.cache''
                  (JSONText (written ''2023-11-14T22:13:20Z'' ?evs))))
          = Some ?evs" .
  from this valid have "returned_events
            (LoadCachedEvents example_timefmt
               (saved example_world ''/home/u/.cache''
                  (JSONText (written ''2023-11-14T22:13:20Z'' ?evs))))
          = Some ?evs"
    by (rule mp)
  with example_save[of ?evs] v1 v2 show ?thesis by (intro conjI)
qed

lemma coerce_invalid: "coerceUTF8 [CHR 0xFF] = replacement"
  by (simp add: byte_def RuneError_def replacement_def)

theorem save_then_load_counterexample:
  "returned_value (saveToCache example_timefmt [example_invalid_event] example_world) = Some None
   \<and> returned_events
        (LoadCachedEvents example_timefmt
           (world_after (saveToCache example_timefmt [example_invalid_event] example_world)))
       = Some [example_invalid_event\<lparr>Title := [CHR 0xEF, CHR 0xBF, CHR 0xBD]\<rparr>]
   \<and> [example_invalid_event\<lparr>Title := [CHR 0xEF, CHR 0xBF, CHR 0xBD]\<rparr>] \<noteq> [example_invalid_event]"
proof -
  have saved_ok: "returned_value (saveToCache example_timefmt [example_invalid_event] example_world)
                    = Some None"
    by (simp add: example_save returned_value_def)
  have after: "world_after (saveToCache example_timefmt [example_invalid_event] example_world)
                 = saved example_world ''/home/u/.cache''
                     (JSONText (written ''2023-11-14T22:13:20Z'' [example_invalid_event]))"
    by (simp add: example_save world_after_def)
  have coerced: "coerce_Event example_invalid_event
                   = example_invalid_event\<lparr>Title := [CHR 0xEF, CHR 0xBF, CHR 0xBD]\<rparr>"
    by (simp add: coerce_Event_def example_invalid_event_def example_event_def coerce_invalid
          replacement_def byte_def RuneError_def)
  from load_after_save[OF example_world_root example_world_open example_unmarshal,
      of "[example_invalid_event]"]
  have loaded: "returned_events
        (LoadCachedEvents example_timefmt
           (world_after (saveToCache example_timefmt [example_invalid_event] example_world)))
       = Some [example_invalid_event\<lparr>Title := [CHR 0xEF, CHR 0xBF, CHR 0xBD]\<rparr>]"
    by (simp add: after coerced)
  have differ: "[example_invalid_event\<lparr>Title := [CHR 0xEF, CHR 0xBF, CHR 0xBD]\<rparr>]
                  \<noteq> [example_invalid_event]"
    by (simp add: example_invalid_event_def example_event_def)
  from saved_ok loaded differ show ?thesis by (intro conjI)
qed

subsection \<open>What scrapeEvents of scraper.go returns\<close>

lemma filed0: "filed scrape_map0"
  by (simp add: filed_def scrape_map0_def)

lemma onName_filed:
  "filed st \<Longrightarrow> 0 < m \<Longrightarrow>
   filed (onName m t st) \<and> dom (eventsMap (onName m t st)) = insert t (dom (eventsMap st))"
  by (auto simp: filed_def onName_def Let_def split: option.splits)

lemma each_onName:
  "filed st \<Longrightarrow> 0 < m \<Longrightarrow>
   filed (each (onName m) ts st)
   \<and> dom (eventsMap (each (onName m) ts st)) = set ts \<union> dom (eventsMap st)"
proof (induction ts arbitrary: st)
  case Nil
  then show ?case by simp
next
  case (Cons t ts)
  from onName_filed[OF Cons.prems, of t]
  have f: "filed (onName m t st)"
    and d: "dom (eventsMap (onName m t st)) = insert t (dom (eventsMap st))"
    by simp_all
  from Cons.IH[OF f Cons.prems(2)] d show ?case by auto
qed

lemma ForEach_a_Title: "Title (fst (ForEach_a texts (ev, valid))) = Title ev"
  by (induction texts arbitrary: ev valid) auto

lemma field_handlers_filed:
  assumes "filed st"
  shows "filed (onTime m p st) \<and> dom (eventsMap (onTime m p st)) = dom (eventsMap st)"
    and "filed (onDescription m p st) \<and> dom (eventsMap (onDescription m p st)) = dom (eventsMap st)"
    and "filed (onLocation m p st) \<and> dom (eventsMap (onLocation m p st)) = dom (eventsMap st)"
  using assms
  by (auto simp: filed_def onTime_def onDescription_def onLocation_def split: option.splits)

lemma onTypes_filed:
  assumes "filed st"
  shows "filed (onTypes m q st) \<and> dom (eventsMap (onTypes m q st)) = dom (eventsMap st)"
proof (cases "counted st \<ge> m \<or> eventsMap st (fst q) = None")
  case True
  with assms show ?thesis by (auto simp: onTypes_def)
next
  case False
  then obtain ev where ev: "eventsMap st (fst q) = Some ev" and m: "\<not> counted st \<ge> m" by auto
  obtain ev' valid where fe: "ForEach_a (snd q) (ev, False) = (ev', valid)"
    by (cases "ForEach_a (snd q) (ev, False)")
  have t: "Title ev' = Title ev" using ForEach_a_Title[of "snd q" ev False] fe by simp
  have "Title ev = fst q" using assms ev by (simp add: filed_def)
  with t assms ev m fe show ?thesis
    by (auto simp: onTypes_def filed_def Let_def)
qed

lemma each_keeps_filed:
  assumes "\<And>x st. filed st \<Longrightarrow> filed (f x st) \<and> dom (eventsMap (f x st)) = dom (eventsMap st)"
  shows "filed st \<Longrightarrow>
         filed (each f xs st) \<and> dom (eventsMap (each f xs st)) = dom (eventsMap st)"
proof (induction xs arbitrary: st)
  case Nil
  then show ?case by simp
next
  case (Cons x xs)
  from assms[OF Cons.prems, of x] Cons.IH[of "f x st"] show ?case by simp
qed

lemma gathered_filed:
  assumes "0 < m"
  shows "filed (gathered m body) \<and> dom (eventsMap (gathered m body)) = set (names body)"
proof -
  let ?s1 = "each (onName m) (names body) scrape_map0"
  let ?s2 = "each (onTime m) (times body) ?s1"
  let ?s3 = "each (onDescription m) (descriptions body) ?s2"
  let ?s4 = "each (onLocation m) (locations body) ?s3"
  have 1: "filed ?s1 \<and> dom (eventsMap ?s1) = set (names body)"
    using each_onName[OF filed0 assms, of "names body"] by (simp add: scrape_map0_def)
  have 2: "filed ?s2 \<and> dom (eventsMap ?s2) = dom (eventsMap ?s1)"
    using 1 by (intro each_keeps_filed field_handlers_filed) simp_all
  have 3: "filed ?s3 \<and> dom (eventsMap ?s3) = dom (eventsMap ?s2)"
    using 2 by (intro each_keeps_filed field_handlers_filed) simp_all
  have 4: "filed ?s4 \<and> dom (eventsMap ?s4) = dom (eventsMap ?s3)"
    using 3 by (intro each_keeps_filed field_handlers_filed) simp_all
  have 5: "filed (each (onTypes m) (types body) ?s4)
           \<and> dom (eventsMap (each (onTypes m) (types body) ?s4)) = dom (eventsMap ?s4)"
    using 4 by (intro each_keeps_filed onTypes_filed) simp_all
  from 1 2 3 4 5 show ?thesis by (simp add: gathered_def)
qed

lemma gathered_idle: "m \<le> 0 \<Longrightarrow> gathered m body = scrape_map0"
proof -
  assume m: "m \<le> 0"
  have idle: "each f xs scrape_map0 = scrape_map0" if "\<And>x. f x scrape_map0 = scrape_map0"
    for f :: "'e \<Rightarrow> scrape_map \<Rightarrow> scrape_map" and xs
    using that by (induction xs) simp_all
  have c: "counted scrape_map0 \<ge> m" using m by (simp add: scrape_map0_def)
  show ?thesis
    unfolding gathered_def
    by (simp add: idle onName_def onTime_def onDescription_def onLocation_def onTypes_def c)
qed

lemma range_found:
  "found (range_eventsMap m ks st)
     = found st @ take (nat (m - counted st)) (List.map_filter (eventsMap st) ks)"
proof (induction ks arbitrary: st)
  case Nil
  show ?case by (simp add: map_filter_simps)
next
  case (Cons k ks)
  show ?case
  proof (cases "eventsMap st k")
    case None
    with Cons show ?thesis by (simp add: map_filter_simps)
  next
    case (Some event)
    show ?thesis
    proof (cases "counted st \<ge> m")
      case True
      with Some show ?thesis by (simp add: map_filter_simps)
    next
      case False
      let ?st' = "st\<lparr>found := found st @ [event], counted := counted st + 1\<rparr>"
      have n: "nat (m - counted st) = Suc (nat (m - (counted st + 1)))" using False by simp
      from Cons[of ?st'] Some False show ?thesis
        by (simp add: map_filter_simps n)
    qed
  qed
qed

lemma scrapeEvents_found:
  assumes "scrapeEvents tf m w = Returned (Some evs, w')"
  shows "\<exists>code body. site w = Response code body \<and> code < 203
           \<and> evs = take (nat m) (List.map_filter (eventsMap (gathered m body)) (range_order w))"
proof -
  let ?w1 = "w\<lparr>requests := requests w + 1\<rparr>"
  from assms obtain code body where site: "site w = Response code body" and ok: "\<not> code \<ge> 203"
    by (cases "site w") (auto simp: scrapeEvents_def Let_def split: if_splits)
  have f: "found (gathered m body) = [] \<and> counted (gathered m body) = 0"
  proof (cases "0 < m")
    case True
    from gathered_filed[OF this, of body] show ?thesis by (simp add: filed_def)
  next
    case False
    then show ?thesis by (simp add: gathered_idle scrape_map0_def)
  qed
  from assms site ok
  have "evs = found (range_eventsMap m (range_order ?w1) (gathered m body))"
    by (auto simp: scrapeEvents_def Let_def gathered_def Fatalf_def
          split: outcome.splits sum.splits prod.splits option.splits)
  then have "evs = take (nat m) (List.map_filter (eventsMap (gathered m body)) (range_order w))"
    using f by (simp add: range_found)
  with site ok show ?thesis by auto
qed

lemma map_filter_titles:
  assumes "\<forall>k ev. mp k = Some ev \<longrightarrow> Title ev = k"
  shows "map Title (List.map_filter mp ks) = filter (\<lambda>k. k \<in> dom mp) ks"
  using assms
  by (induction ks) (auto simp: map_filter_simps split: option.splits)

lemma gathered_titles:
  "0 < m \<Longrightarrow>
   map Title (List.map_filter (eventsMap (gathered m body)) ks)
     = filter (\<lambda>k. k \<in> set (names body)) ks"
proof -
  assume "0 < m"
  from gathered_filed[OF this, of body]
  have t: "\<forall>k ev. eventsMap (gathered m body) k = Some ev \<longrightarrow> Title ev = k"
    and d: "dom (eventsMap (gathered m body)) = set (names body)"
    by (simp_all add: filed_def)
  from map_filter_titles[OF t, of ks] d show ?thesis by simp
qed

lemma scrapeEvents_titles:
  assumes "scrapeEvents tf m w = Returned (Some evs, w')" and "site w = Response code body"
  shows "map Title evs = take (nat m) (filter (\<lambda>k. k \<in> set (names body)) (range_order w))"
proof -
  from scrapeEvents_found[OF assms(1)] assms(2)
  have evs: "evs = take (nat m) (List.map_filter (eventsMap (gathered m body)) (range_order w))"
    by auto
  show ?thesis
  proof (cases "0 < m")
    case True
    then show ?thesis by (simp add: evs take_map[symmetric] gathered_titles)
  next
    case False
    then show ?thesis by (simp add: evs)
  qed
qed

lemma length_filter_covering:
  assumes "distinct ks" and "S \<subseteq> set ks"
  shows "length (filter (\<lambda>k. k \<in> S) ks) = card S"
proof -
  have "set (filter (\<lambda>k. k \<in> S) ks) = S" using assms(2) by auto
  moreover have "distinct (filter (\<lambda>k. k \<in> S) ks)" using assms(1) by simp
  ultimately show ?thesis using distinct_card by fastforce
qed

lemma scrapeEvents_count:
  assumes "scrapeEvents tf m w = Returned (Some evs, w')" and "site w = Response code body"
    and "distinct (range_order w)" and "set (names body) \<subseteq> set (range_order w)"
  shows "length evs = min (nat m) (card (set (names body)))"
proof -
  have "length evs = length (map Title evs)" by simp
  also have "\<dots> = length (take (nat m) (filter (\<lambda>k. k \<in> set (names body)) (range_order w)))"
    by (simp only: scrapeEvents_titles[OF assms(1,2)])
  also have "\<dots> = min (nat m) (card (set (names body)))"
    by (simp add: length_filter_covering[OF assms(3,4)] min.commute)
  finally show ?thesis .
qed

lemma scrapeEvents_can_save:
  assumes "site w = Response code body" and "code < 203" and "can_save tf w root"
  shows "\<exists>w'. scrapeEvents tf m w
                 = Returned (Some (take (nat m) (List.map_filter (eventsMap (gathered m body))
                                                    (range_order w))), w')"
proof -
  let ?w1 = "w\<lparr>requests := requests w + 1\<rparr>"
  have ready: "cache_dir_ready ?w1 root"
    using assms(3) by (simp add: can_save_def cache_dir_ready_def os_Stat_def)
  from assms(3) obtain t where t: "MarshalJSON tf (clock w) = Some t"
    by (auto simp: can_save_def)
  have f: "found (gathered m body) = [] \<and> counted (gathered m body) = 0"
  proof (cases "0 < m")
    case True
    from gathered_filed[OF this, of body] show ?thesis by (simp add: filed_def)
  next
    case False
    then show ?thesis by (simp add: gathered_idle scrape_map0_def)
  qed
  have r: "found (range_eventsMap m (range_order w) (gathered m body))
             = take (nat m) (List.map_filter (eventsMap (gathered m body)) (range_order w))"
    using f by (simp add: range_found)
  have g: "getCacheDir (w\<lparr>requests := Suc (requests w)\<rparr>)
             = Returned (appCacheDir root, with_cache_dir (w\<lparr>requests := Suc (requests w)\<rparr>) root)"
    using getCacheDir_ready[OF ready] by simp
  have c: "filepath_Join (appCacheDir root) ''events.json'' = cacheFile root"
    by (simp add: cacheFile_def)
  show ?thesis
    using assms t
    by (simp add: scrapeEvents_def Let_def gathered_def[symmetric] r g c
          os_Create_def Encode_def encode_written can_save_def)
qed


lemma example_letters_facts:
  "site example_letters
     = Response 200 (example_draft_page\<lparr>names := map (\<lambda>c. [c]) ''abcdefghijklmnopqrstuvwxyz''\<rparr>)"
  "can_save example_timefmt example_letters ''/home/u/.cache''"
  "range_order example_letters = map (\<lambda>c. [c]) ''abcdefghijklmnopqrstuvwxyz''"
  "distinct (range_order example_letters)"
  "card (set (map (\<lambda>c. [c]) ''abcdefghijklmnopqrstuvwxyz'')) = 26"
proof -
  show "site example_letters
     = Response 200 (example_draft_page\<lparr>names := map (\<lambda>c. [c]) ''abcdefghijklmnopqrstuvwxyz''\<rparr>)"
    by (simp add: example_letters_def)
  show "can_save example_timefmt example_letters ''/home/u/.cache''"
    by (simp add: example_letters_def can_save_def cache_dir_ready_def
        example_world_def example_timefmt_def)
  show "range_order example_letters = map (\<lambda>c. [c]) ''abcdefghijklmnopqrstuvwxyz''"
    by (simp add: example_letters_def)
  have d: "distinct (map (\<lambda>c. [c]) ''abcdefghijklmnopqrstuvwxyz'')" by simp
  then show "distinct (range_order example_letters)" by (simp add: example_letters_def)
  from distinct_card[OF d]
  show "card (set (map (\<lambda>c. [c]) ''abcdefghijklmnopqrstuvwxyz'')) = 26" by simp
qed



lemma scrapeEvents_at_most:
  assumes "scrapeEvents tf m w = Returned (Some evs, w')"
  shows "int (length evs) \<le> max m 0"
proof -
  from scrapeEvents_found[OF assms] obtain code body where
    "evs = take (nat m) (List.map_filter (eventsMap (gathered m body)) (range_order w))"
    by blast
  then have "length evs \<le> nat m" by simp
  then show ?thesis by linarith
qed

lemma example_letters_names:
  "set (names (example_draft_page\<lparr>names := map (\<lambda>c. [c]) ''abcdefghijklmnopqrstuvwxyz''\<rparr>))
     \<subseteq> set (range_order example_letters)"
  by (simp only: example_letters_facts(3)) simp

subsection \<open>The number of records\<close>

lemma ScrapeEvents_clamp: "ScrapeEvents tf n w = ScrapeEvents tf (validate_numEvents n) w"
proof -
  have "(if validate_numEvents n < 2 then 2
         else if validate_numEvents n > 25 then 25 else validate_numEvents n)
        = (if n < 2 then 2 else if n > 25 then 25 else n)"
    by (simp add: validate_numEvents_def)
  then show ?thesis
    unfolding ScrapeEvents_def by (simp only:)
qed

lemma handlers_keep:
  "found (onName n t st) = found st" "counted (onName n t st) = counted st"
  "found (onTime n p st) = found st" "counted (onTime n p st) = counted st"
  "found (onDescription n p st) = found st" "counted (onDescription n p st) = counted st"
  "found (onLocation n p st) = found st" "counted (onLocation n p st) = counted st"
  "found (onTypes n q st) = found st" "counted (onTypes n q st) = counted st"
  by (simp_all add: onName_def onTime_def onDescription_def onLocation_def onTypes_def Let_def
        split: option.split prod.split)

lemma each_keeps:
  assumes "\<And>x st. found (f x st) = found st" and "\<And>x st. counted (f x st) = counted st"
  shows "found (each f xs st) = found st \<and> counted (each f xs st) = counted st"
  by (induction xs arbitrary: st) (simp_all add: assms)

lemma range_bound:
  "counted st = int (length (found st)) \<Longrightarrow> counted st \<le> m \<Longrightarrow>
   int (length (found (range_eventsMap m ks st))) \<le> m"
proof (induction ks arbitrary: st)
  case Nil
  then show ?case by simp
next
  case (Cons k ks)
  show ?case
  proof (cases "eventsMap st k")
    case None
    with Cons show ?thesis by simp
  next
    case (Some event)
    show ?thesis
    proof (cases "counted st \<ge> m")
      case True
      with Some Cons.prems show ?thesis by simp
    next
      case False
      let ?st' = "st\<lparr>found := found st @ [event], counted := counted st + 1\<rparr>"
      have "counted ?st' = int (length (found ?st'))" "counted ?st' \<le> m"
        using Cons.prems False by simp_all
      from Cons.IH[OF this] Some False show ?thesis by simp
    qed
  qed
qed

lemma scrapeEvents_bound:
  assumes "scrapeEvents tf m w = Returned (Some evs, w')" and "0 \<le> m"
  shows "int (length evs) \<le> m"
proof -
  let ?w1 = "w\<lparr>requests := requests w + 1\<rparr>"
  from assms(1) obtain code body where site: "site ?w1 = Response code body" and ok: "\<not> code \<ge> 203"
    by (cases "site ?w1") (auto simp: scrapeEvents_def Let_def split: if_splits)
  define st5 where "st5 = each (onTypes m) (types body)
      (each (onLocation m) (locations body)
        (each (onDescription m) (descriptions body)
          (each (onTime m) (times body)
            (each (onName m) (names body) scrape_map0))))"
  have keep: "found st5 = [] \<and> counted st5 = 0"
    by (simp add: st5_def each_keeps handlers_keep scrape_map0_def)
  then have "int (length (found (range_eventsMap m (range_order ?w1) st5))) \<le> m"
    using assms(2) by (intro range_bound) simp_all
  moreover from assms(1) site ok have "evs = found (range_eventsMap m (range_order ?w1) st5)"
    by (auto simp: scrapeEvents_def Let_def st5_def Fatalf_def
          split: outcome.splits sum.splits prod.splits option.splits)
  ultimately show ?thesis by simp
qed

lemma returned_events_Some:
  "returned_events r = Some evs \<Longrightarrow> \<exists>w'. r = Returned (Inr evs, w')"
  by (auto simp: returned_events_def split: outcome.splits prod.splits sum.splits)

lemma validate_numEvents_range: "2 \<le> validate_numEvents n \<and> validate_numEvents n \<le> 25"
  by (simp add: validate_numEvents_def)

lemma validate_numEvents_idem: "validate_numEvents (validate_numEvents n) = validate_numEvents n"
  by (simp add: validate_numEvents_def)

lemma ScrapeEvents_length:
  assumes "returned_events (ScrapeEvents tf n w) = Some evs"
  shows "int (length evs) \<le> validate_numEvents n"
proof -
  from returned_events_Some[OF assms] obtain w' where
    "ScrapeEvents tf n w = Returned (Inr evs, w')" ..
  from ScrapeEvents_returns_traversal[OF this] obtain code body where
    "site w = Response code body" and
    "evs = take (nat (validate_numEvents n)) (valid_records (event_items body))"
    by blast
  then have "length evs \<le> nat (validate_numEvents n)" by simp
  then show ?thesis
    using validate_numEvents_range[of n] by linarith
qed

lemma example_scrape:
  "returned_events (ScrapeEvents example_timefmt n example_world)
     = Some (take (nat (validate_numEvents n)) (valid_records (event_items example_page)))"
proof -
  have site: "site example_world = Response 200 example_page"
    by (simp add: example_world_def)
  have ok: "(200::nat) < 203" by simp
  from ScrapeEvents_can_save[OF site ok example_world_can_save, of n] show ?thesis
    by (auto simp: returned_events_def)
qed

subsection \<open>Claim C8: a cache that cannot be written\<close>

lemma getCacheDir_fatal:
  assumes "UserCacheDir w = None
           \<or> (UserCacheDir w = Some root \<and> IsNotExist (os_Stat (appCacheDir root) w)
               \<and> appCacheDir root \<in> mkdir_refused w)"
  shows "getCacheDir w = Fatalf w"
  using assms getCacheDir_no_root getCacheDir_refused by blast

lemma ScrapeEvents_exit:
  assumes "site w = Response code body" and "code < 203"
    and "UserCacheDir w = None
         \<or> (UserCacheDir w = Some root \<and> IsNotExist (os_Stat (appCacheDir root) w)
             \<and> appCacheDir root \<in> mkdir_refused w)"
  shows "ScrapeEvents tf n w = Fatalf (fetched w (validate_numEvents n) body)"
proof -
  let ?w1 = "fetched w (validate_numEvents n) body"
  have "UserCacheDir ?w1 = None
         \<or> (UserCacheDir ?w1 = Some root \<and> IsNotExist (os_Stat (appCacheDir root) ?w1)
             \<and> appCacheDir root \<in> mkdir_refused ?w1)"
    using assms(3) by (simp add: os_Stat_fetched)
  then have "getCacheDir ?w1 = Fatalf ?w1" by (rule getCacheDir_fatal)
  then have "saveToCache tf (take (nat (validate_numEvents n)) (valid_records (event_items body))) ?w1
               = Fatalf ?w1"
    by (rule saveToCache_exit)
  then show ?thesis
    by (simp add: ScrapeEvents_fetched[OF assms(1,2)] Fatalf_def)
qed

lemma ScrapeEvents_save_error:
  assumes "site w = Response code body" and "code < 203" and "cache_dir_ready w root"
  shows "returned_error (ScrapeEvents tf n w) =
           (if cacheFile root \<in> create_refused w
            then Some (Errorf ''failed to save events to cache''
                         (Errorf ''failed to create cache file'' ErrPermission))
            else if MarshalJSON tf (clock w) = None
            then Some (Errorf ''failed to save events to cache''
                         (Errorf ''failed to encode events to JSON'' ErrMarshal))
            else if cacheFile root \<in> write_refused w
            then Some (Errorf ''failed to save events to cache''
                         (Errorf ''failed to encode events to JSON'' ErrWrite))
            else None)"
proof -
  have ready: "cache_dir_ready (fetched w (validate_numEvents n) body) root"
    using assms(3) by (simp add: cache_dir_ready_fetched)
  show ?thesis
    by (auto simp: ScrapeEvents_fetched[OF assms(1,2)] saveToCache_eq[OF ready]
          returned_error_def)
qed

text \<open>
  Claim C8, as amended. After a successful fetch, when \<^verbatim>\<open>getCacheDir\<close> returns but the
  cache file cannot be created, the data cannot be marshalled or the file cannot be
  written, \<^verbatim>\<open>ScrapeEvents\<close> returns that failure as its own error and no events. That
  is also what happens when \<^verbatim>\<open>os.Stat\<close> fails on the cache directory with an error
  other than "does not exist": \<^verbatim>\<open>getCacheDir\<close> then makes no directory and returns the
  path, and the failure to create the file is returned. When \<^verbatim>\<open>os.UserCacheDir\<close>
  fails, or \<^verbatim>\<open>os.Stat\<close> reports that the cache directory does not exist and
  \<^verbatim>\<open>os.Mkdir\<close> fails, \<^verbatim>\<open>getCacheDir\<close> ends the process: \<^verbatim>\<open>ScrapeEvents\<close>,
  \<^verbatim>\<open>ShouldScrape\<close> and \<^verbatim>\<open>LoadCachedEvents\<close> do not return.
\<close>

theorem persist_failure:
  assumes "site w = Response code body" and "code < 203"
  shows "(cache_dir_ready w root \<and> cacheFile root \<in> create_refused w \<longrightarrow>
            returned_error (ScrapeEvents tf n w)
              = Some (Errorf ''failed to save events to cache''
                        (Errorf ''failed to create cache file'' ErrPermission))
            \<and> returned_events (ScrapeEvents tf n w) = None)
       \<and> (cache_dir_ready w root \<and> cacheFile root \<notin> create_refused w
            \<and> MarshalJSON tf (clock w) = None \<longrightarrow>
            returned_error (ScrapeEvents tf n w)
              = Some (Errorf ''failed to save events to cache''
                        (Errorf ''failed to encode events to JSON'' ErrMarshal))
            \<and> returned_events (ScrapeEvents tf n w) = None)
       \<and> (cache_dir_ready w root \<and> cacheFile root \<notin> create_refused w
            \<and> MarshalJSON tf (clock w) \<noteq> None \<and> cacheFile root \<in> write_refused w \<longrightarrow>
            returned_error (ScrapeEvents tf n w)
              = Some (Errorf ''failed to save events to cache''
                        (Errorf ''failed to encode events to JSON'' ErrWrite))
            \<and> returned_events (ScrapeEvents tf n w) = None)
       \<and> (UserCacheDir w = Some root \<and> os_Stat (appCacheDir root) w = Some err
            \<and> err \<noteq> ErrNotExist \<and> cacheFile root \<in> create_refused w \<longrightarrow>
            returned_error (ScrapeEvents tf n w)
              = Some (Errorf ''failed to save events to cache''
                        (Errorf ''failed to create cache file'' ErrPermission))
            \<and> returned_events (ScrapeEvents tf n w) = None
            \<and> \<not> exited (ScrapeEvents tf n w))
       \<and> (UserCacheDir w = None
            \<or> (UserCacheDir w = Some root \<and> os_Stat (appCacheDir root) w = Some ErrNotExist
                \<and> appCacheDir root \<in> mkdir_refused w) \<longrightarrow>
            exited (ScrapeEvents tf n w) \<and> exited (ShouldScrape tf w)
            \<and> exited (LoadCachedEvents tf w))"
proof -
  have no_events: "returned_error r = Some err \<Longrightarrow> returned_events r = None"
    for r :: "((error + Event list) \<times> world) outcome" and err
    by (auto simp: returned_error_def returned_events_def
          split: outcome.splits prod.splits sum.splits)
  have save: "cache_dir_ready w root \<Longrightarrow> returned_error (ScrapeEvents tf n w) =
           (if cacheFile root \<in> create_refused w
            then Some (Errorf ''failed to save events to cache''
                         (Errorf ''failed to create cache file'' ErrPermission))
            else if MarshalJSON tf (clock w) = None
            then Some (Errorf ''failed to save events to cache''
                         (Errorf ''failed to encode events to JSON'' ErrMarshal))
            else if cacheFile root \<in> write_refused w
            then Some (Errorf ''failed to save events to cache''
                         (Errorf ''failed to encode events to JSON'' ErrWrite))
            else None)"
    by (rule ScrapeEvents_save_error[OF assms])
  have fatal: "UserCacheDir w = None
            \<or> (UserCacheDir w = Some root \<and> os_Stat (appCacheDir root) w = Some ErrNotExist
                \<and> appCacheDir root \<in> mkdir_refused w) \<Longrightarrow>
            exited (ScrapeEvents tf n w) \<and> exited (ShouldScrape tf w)
            \<and> exited (LoadCachedEvents tf w)"
  proof -
    assume "UserCacheDir w = None
            \<or> (UserCacheDir w = Some root \<and> os_Stat (appCacheDir root) w = Some ErrNotExist
                \<and> appCacheDir root \<in> mkdir_refused w)"
    then have c: "UserCacheDir w = None
            \<or> (UserCacheDir w = Some root \<and> IsNotExist (os_Stat (appCacheDir root) w)
                \<and> appCacheDir root \<in> mkdir_refused w)"
      by (auto simp: IsNotExist_def)
    from ScrapeEvents_exit[OF assms c] have "exited (ScrapeEvents tf n w)"
      by (simp add: exited_Fatalf)
    moreover from getCacheDir_fatal[OF c] have "exited (ShouldScrape tf w)"
      "exited (LoadCachedEvents tf w)"
      by (simp_all add: ShouldScrape_exit LoadCachedEvents_exit exited_Fatalf)
    ultimately show ?thesis by simp
  qed
  have unexamined: "UserCacheDir w = Some root \<and> os_Stat (appCacheDir root) w = Some err
            \<and> err \<noteq> ErrNotExist \<and> cacheFile root \<in> create_refused w \<Longrightarrow>
            returned_error (ScrapeEvents tf n w)
              = Some (Errorf ''failed to save events to cache''
                        (Errorf ''failed to create cache file'' ErrPermission))
            \<and> returned_events (ScrapeEvents tf n w) = None
            \<and> \<not> exited (ScrapeEvents tf n w)"
  proof -
    assume a: "UserCacheDir w = Some root \<and> os_Stat (appCacheDir root) w = Some err
            \<and> err \<noteq> ErrNotExist \<and> cacheFile root \<in> create_refused w"
    then have ready: "cache_dir_ready w root"
      by (simp add: cache_dir_ready_def IsNotExist_def)
    from a save[OF ready] have e: "returned_error (ScrapeEvents tf n w)
              = Some (Errorf ''failed to save events to cache''
                        (Errorf ''failed to create cache file'' ErrPermission))"
      by simp
    then have "\<not> exited (ScrapeEvents tf n w)"
      by (auto simp: returned_error_def exited_def split: outcome.splits)
    with e no_events[OF e] show ?thesis by simp
  qed
  show ?thesis
    using save fatal unexamined no_events by (intro conjI impI) auto
qed

theorem persist_failure_witness:
  "site example_no_create = Response 200 example_page \<and> (200::nat) < 203
   \<and> cache_dir_ready example_no_create ''/home/u/.cache''
   \<and> cacheFile ''/home/u/.cache'' \<in> create_refused example_no_create
   \<and> returned_error (ScrapeEvents example_timefmt 10 example_no_create)
       = Some (Errorf ''failed to save events to cache''
                 (Errorf ''failed to create cache file'' ErrPermission))
   \<and> returned_events (ScrapeEvents example_timefmt 10 example_no_create) = None
   \<and> os_Stat (appCacheDir ''/home/u/.cache'') example_unsearchable = Some ErrPermission
   \<and> returned_error (ScrapeEvents example_timefmt 10 example_unsearchable)
       = Some (Errorf ''failed to save events to cache''
                 (Errorf ''failed to create cache file'' ErrPermission))
   \<and> \<not> exited (ScrapeEvents example_timefmt 10 example_unsearchable)
   \<and> os_Stat (appCacheDir ''/home/u/.cache'') example_no_mkdir = Some ErrNotExist
   \<and> exited (ScrapeEvents example_timefmt 10 example_no_mkdir)
   \<and> exited (LoadCachedEvents example_timefmt example_no_mkdir)"
proof -
  let ?root = "''/home/u/.cache''"
  have site: "site example_no_create = Response 200 example_page"
    by (simp add: example_no_create_def example_world_def)
  have ok: "(200::nat) < 203" by simp
  have ready: "cache_dir_ready example_no_create ?root"
    by (simp add: cache_dir_ready_def example_no_create_def example_world_def)
  have refused: "cacheFile ?root \<in> create_refused example_no_create"
    by (simp add: example_no_create_def example_paths)
  from ready refused
  have "cache_dir_ready example_no_create ?root
        \<and> cacheFile ?root \<in> create_refused example_no_create"
    by (rule conjI)
  with persist_failure[OF site ok, where root = ?root and tf = example_timefmt and n = 10,
      THEN conjunct1]
  have one: "returned_error (ScrapeEvents example_timefmt 10 example_no_create)
          = Some (Errorf ''failed to save events to cache''
                    (Errorf ''failed to create cache file'' ErrPermission))
        \<and> returned_events (ScrapeEvents example_timefmt 10 example_no_create) = None"
    by (rule mp)
  have "UserCacheDir example_unsearchable = Some ?root
        \<and> os_Stat (appCacheDir ?root) example_unsearchable = Some ErrPermission
        \<and> ErrPermission \<noteq> ErrNotExist
        \<and> cacheFile ?root \<in> create_refused example_unsearchable"
    by (simp add: example_unsearchable_facts)
  with persist_failure[OF example_unsearchable_facts(5) ok, where root = ?root
      and tf = example_timefmt and n = 10 and err = ErrPermission,
      THEN conjunct2, THEN conjunct2, THEN conjunct2, THEN conjunct1]
  have two: "returned_error (ScrapeEvents example_timefmt 10 example_unsearchable)
          = Some (Errorf ''failed to save events to cache''
                    (Errorf ''failed to create cache file'' ErrPermission))
        \<and> returned_events (ScrapeEvents example_timefmt 10 example_unsearchable) = None
        \<and> \<not> exited (ScrapeEvents example_timefmt 10 example_unsearchable)"
    by (rule mp)
  have "UserCacheDir example_no_mkdir = None
        \<or> (UserCacheDir example_no_mkdir = Some ?root
            \<and> os_Stat (appCacheDir ?root) example_no_mkdir = Some ErrNotExist
            \<and> appCacheDir ?root \<in> mkdir_refused example_no_mkdir)"
    by (simp add: example_no_mkdir_facts)
  with persist_failure[OF example_no_mkdir_facts(5) ok, where root = ?root
      and tf = example_timefmt and n = 10,
      THEN conjunct2, THEN conjunct2, THEN conjunct2, THEN conjunct2]
  have three: "exited (ScrapeEvents example_timefmt 10 example_no_mkdir)
        \<and> exited (ShouldScrape example_timefmt example_no_mkdir)
        \<and> exited (LoadCachedEvents example_timefmt example_no_mkdir)"
    by (rule mp)
  from site ok ready refused one two three example_unsearchable_facts(2) example_no_mkdir_facts(2)
  show ?thesis by simp
qed

theorem persist_failure_counterexample:
  "site example_no_mkdir = Response 200 example_page
   \<and> os_Stat ''/home/u/.cache/rhs-scraper'' example_no_mkdir = Some ErrNotExist
   \<and> ''/home/u/.cache/rhs-scraper'' \<in> mkdir_refused example_no_mkdir
   \<and> exited (ScrapeEvents example_timefmt 10 example_no_mkdir)
   \<and> returned_error (ScrapeEvents example_timefmt 10 example_no_mkdir) = None"
proof -
  have site: "site example_no_mkdir = Response 200 example_page"
    by (rule example_no_mkdir_facts)
  have ok: "(200::nat) < 203" by simp
  have missing: "os_Stat ''/home/u/.cache/rhs-scraper'' example_no_mkdir = Some ErrNotExist"
    using example_no_mkdir_facts(2) by (simp add: example_paths)
  have refused: "''/home/u/.cache/rhs-scraper'' \<in> mkdir_refused example_no_mkdir"
    by (simp add: example_no_mkdir_def)
  have "UserCacheDir example_no_mkdir = None
        \<or> (UserCacheDir example_no_mkdir = Some ''/home/u/.cache''
            \<and> IsNotExist (os_Stat (appCacheDir ''/home/u/.cache'') example_no_mkdir)
            \<and> appCacheDir ''/home/u/.cache'' \<in> mkdir_refused example_no_mkdir)"
    by (simp add: example_no_mkdir_facts IsNotExist_def)
  from ScrapeEvents_exit[OF site ok this, of example_timefmt 10]
  have r: "ScrapeEvents example_timefmt 10 example_no_mkdir
             = Fatalf (fetched example_no_mkdir (validate_numEvents 10) example_page)" .
  have "exited (ScrapeEvents example_timefmt 10 example_no_mkdir)"
    by (simp add: r exited_Fatalf)
  moreover have "returned_error (ScrapeEvents example_timefmt 10 example_no_mkdir) = None"
    by (simp add: r Fatalf_def returned_error_def)
  ultimately show ?thesis using site missing refused by (intro conjI)
qed

subsection \<open>Claim C9: scrape or load\<close>

lemma getCacheDir_Exited: "getCacheDir w = Exited w' \<Longrightarrow> requests w' = requests w"
  by (auto simp: getCacheDir_def Fatalf_def os_Mkdir_def Let_def
        split: option.splits if_splits sum.splits)

lemma getCacheDir_Returned: "getCacheDir w = Returned (d, w1) \<Longrightarrow> requests w1 = requests w"
  by (auto simp: getCacheDir_def Fatalf_def os_Mkdir_def Let_def
        split: option.splits if_splits sum.splits)

lemma ShouldScrape_requests: "requests (world_after (ShouldScrape tf w)) = requests w"
proof (cases "getCacheDir w")
  case (Exited w')
  then show ?thesis
    by (simp add: ShouldScrape_def world_after_def getCacheDir_Exited)
next
  case (Returned r)
  obtain d w1 where r: "r = (d, w1)" by (cases r)
  with Returned have "requests w1 = requests w" by (simp add: getCacheDir_Returned)
  with Returned r show ?thesis
    by (simp add: ShouldScrape_def world_after_def Let_def split: sum.split)
qed

lemma shouldScrape_requests: "requests (world_after (shouldScrape tf w)) = requests w"
proof (cases "getCacheDir w")
  case (Exited w')
  then show ?thesis
    by (simp add: shouldScrape_def world_after_def getCacheDir_Exited)
next
  case (Returned r)
  obtain d w1 where r: "r = (d, w1)" by (cases r)
  with Returned have "requests w1 = requests w" by (simp add: getCacheDir_Returned)
  with Returned r show ?thesis
    by (simp add: shouldScrape_def world_after_def Let_def split: sum.split)
qed

lemma LoadCachedEvents_requests: "requests (world_after (LoadCachedEvents tf w)) = requests w"
proof (cases "getCacheDir w")
  case (Exited w')
  then show ?thesis
    by (simp add: LoadCachedEvents_def world_after_def getCacheDir_Exited)
next
  case (Returned r)
  obtain d w1 where r: "r = (d, w1)" by (cases r)
  with Returned have "requests w1 = requests w" by (simp add: getCacheDir_Returned)
  with Returned r show ?thesis
    by (simp add: LoadCachedEvents_def world_after_def Let_def split: sum.split)
qed

lemma loadCachedEvents_requests: "requests (world_after (loadCachedEvents tf w)) = requests w"
proof (cases "getCacheDir w")
  case (Exited w')
  then show ?thesis
    by (simp add: loadCachedEvents_def world_after_def getCacheDir_Exited)
next
  case (Returned r)
  obtain d w1 where r: "r = (d, w1)" by (cases r)
  with Returned have "requests w1 = requests w" by (simp add: getCacheDir_Returned)
  with Returned r show ?thesis
    by (simp add: loadCachedEvents_def world_after_def Fatalf_def Let_def split: sum.split)
qed

lemma saveToCache_requests: "requests (world_after (saveToCache tf evs w)) = requests w"
proof (cases "getCacheDir w")
  case (Exited w')
  then show ?thesis
    by (simp add: saveToCache_def world_after_def getCacheDir_Exited)
next
  case (Returned r)
  obtain d w1 where r: "r = (d, w1)" by (cases r)
  with Returned have "requests w1 = requests w" by (simp add: getCacheDir_Returned)
  with Returned r show ?thesis
    by (simp add: saveToCache_def world_after_def os_Create_def Encode_def Let_def
          split: sum.split option.split)
qed

lemma ScrapeEvents_requests: "requests (world_after (ScrapeEvents tf n w)) = requests w + 1"
proof (cases "site w")
  case Unreachable
  from ScrapeEvents_failed[OF Visit_unreachable[OF this]] show ?thesis
    by (simp add: world_after_def failed_visit_def)
next
  case (Response code body)
  show ?thesis
  proof (cases "code < 203")
    case False
    then have "203 \<le> code" by simp
    from ScrapeEvents_failed[OF Visit_status[OF Response this]] show ?thesis
      by (simp add: world_after_def failed_visit_def)
  next
    case True
    let ?evs = "take (nat (validate_numEvents n)) (valid_records (event_items body))"
    let ?w1 = "fetched w (validate_numEvents n) body"
    have "requests (world_after (saveToCache tf ?evs ?w1)) = requests w + 1"
      by (simp add: saveToCache_requests)
    then show ?thesis
      by (simp add: ScrapeEvents_fetched[OF Response True] world_after_def
            split: outcome.splits prod.splits option.splits)
  qed
qed

lemma scrapeEvents_requests: "requests (world_after (scrapeEvents tf m w)) = requests w + 1"
proof -
  let ?w1 = "w\<lparr>requests := requests w + 1\<rparr>"
  show ?thesis
  proof (cases "getCacheDir ?w1")
    case (Exited w')
    then have "requests w' = requests w + 1" using getCacheDir_Exited by fastforce
    with Exited show ?thesis
      by (simp add: scrapeEvents_def world_after_def Let_def split: reply.split)
  next
    case (Returned r)
    obtain d w2 where r: "r = (d, w2)" by (cases r)
    with Returned have "requests w2 = requests w + 1" using getCacheDir_Returned by fastforce
    with Returned r show ?thesis
      by (simp add: scrapeEvents_def world_after_def os_Create_def Encode_def Fatalf_def Let_def
            split: reply.split sum.split option.split)
  qed
qed

lemma shouldScrape_eq:
  assumes "cache_dir_ready w root"
  shows "shouldScrape tf w =
           Returned
             (case os_Open (cacheFile root) w of
                Inl err \<Rightarrow> True
              | Inr file \<Rightarrow>
                  (case Decode tf file of
                     Inl err \<Rightarrow> True
                   | Inr d \<Rightarrow> \<not> clock w - LastScraped d < 12 * Hour),
              with_cache_dir w root)"
proof -
  have open_same: "os_Open p (with_cache_dir w root) = os_Open p w" for p
    by (simp add: os_Open_def split: option.split)
  show ?thesis
    by (simp add: shouldScrape_def getCacheDir_ready[OF assms] cacheFile_def[symmetric]
          open_same Since_fresh_iff Let_def split: sum.split)
qed

lemma world_after_Fatalf: "requests (world_after (Fatalf w)) = requests w"
  by (simp add: world_after_def Fatalf_def)

lemma deliver_requests:
  "requests (world_after (case r of Exited w' \<Rightarrow> Exited w'
                          | Returned (Inl err, w2) \<Rightarrow> Fatalf w2
                          | Returned (Inr evs, w2) \<Rightarrow> Returned (evs, w2)))
     = requests (world_after r)"
  by (simp add: world_after_def Fatalf_def split: outcome.split prod.split sum.split)

lemma scrape_and_show_requests:
  "requests (world_after (scrape_and_show tf m w)) = requests w + 1"
  using scrapeEvents_requests[of tf m w]
  by (simp add: scrape_and_show_def world_after_def split: outcome.splits prod.splits)

lemma show_cached_requests:
  "requests (world_after (case loadCachedEvents tf w of Exited w' \<Rightarrow> Exited w'
                          | Returned (evs, w2) \<Rightarrow> Returned (Cached evs, w2)))
     = requests w"
  using loadCachedEvents_requests[of tf w]
  by (simp add: world_after_def split: outcome.splits prod.splits)

lemma Returned_requests:
  "r = Returned (b, w1) \<Longrightarrow> requests (world_after r) = requests w \<Longrightarrow> requests w1 = requests w"
  by (simp add: world_after_def)

text \<open>
  Claim C9, as amended. In main.go, \<^verbatim>\<open>main\<close> has no force flag: when \<^verbatim>\<open>ShouldScrape\<close>
  returns true it calls \<^verbatim>\<open>ScrapeEvents(10)\<close> and shows what that returns (ending the
  process on an error), with one request sent; when \<^verbatim>\<open>ShouldScrape\<close> returns false it
  shows the events of \<^verbatim>\<open>LoadCachedEvents\<close> and sends no request. In scraper.go, \<^verbatim>\<open>main\<close>
  scrapes when the flag \<^verbatim>\<open>-f\<close> is set or \<^verbatim>\<open>shouldScrape\<close> returns true; otherwise it
  asks the user, scrapes when the answer is \<^verbatim>\<open>y\<close> (one request), and only for another
  answer loads the cached events, sending no request.
\<close>

theorem orchestration:
  "(ShouldScrape tf w = Returned (True, w1) \<longrightarrow>
      main tf w = (case ScrapeEvents tf 10 w1 of
                     Exited w' \<Rightarrow> Exited w'
                   | Returned (Inl err, w2) \<Rightarrow> Fatalf w2
                   | Returned (Inr evs, w2) \<Rightarrow> Returned (evs, w2))
      \<and> requests (world_after (main tf w)) = requests w + 1)
   \<and> (ShouldScrape tf w = Returned (False, w1) \<longrightarrow>
      main tf w = (case LoadCachedEvents tf w1 of
                     Exited w' \<Rightarrow> Exited w'
                   | Returned (Inl err, w2) \<Rightarrow> Fatalf w2
                   | Returned (Inr evs, w2) \<Rightarrow> Returned (evs, w2))
      \<and> requests (world_after (main tf w)) = requests w)
   \<and> (forceScrape \<longrightarrow>
      scraper_main tf forceScrape n line w = scrape_and_show tf (validate_numEvents n) w
      \<and> requests (world_after (scraper_main tf forceScrape n line w)) = requests w + 1)
   \<and> (\<not> forceScrape \<and> shouldScrape tf w = Returned (True, w1) \<longrightarrow>
      scraper_main tf forceScrape n line w = scrape_and_show tf (validate_numEvents n) w1
      \<and> requests (world_after (scraper_main tf forceScrape n line w)) = requests w + 1)
   \<and> (\<not> forceScrape \<and> shouldScrape tf w = Returned (False, w1) \<and> ToLower line \<noteq> ''y'' \<longrightarrow>
      scraper_main tf forceScrape n line w
        = (case loadCachedEvents tf w1 of
             Exited w' \<Rightarrow> Exited w'
           | Returned (evs, w2) \<Rightarrow> Returned (Cached evs, w2))
      \<and> requests (world_after (scraper_main tf forceScrape n line w)) = requests w)
   \<and> (\<not> forceScrape \<and> shouldScrape tf w = Returned (False, w1) \<and> ToLower line = ''y'' \<longrightarrow>
      scraper_main tf forceScrape n line w = scrape_and_show tf (validate_numEvents n) w1
      \<and> requests (world_after (scraper_main tf forceScrape n line w)) = requests w + 1)"
proof (intro conjI impI)
  assume s: "ShouldScrape tf w = Returned (True, w1)"
  then show m: "main tf w = (case ScrapeEvents tf 10 w1 of
                     Exited w' \<Rightarrow> Exited w'
                   | Returned (Inl err, w2) \<Rightarrow> Fatalf w2
                   | Returned (Inr evs, w2) \<Rightarrow> Returned (evs, w2))"
    by (simp add: main_def)
  from Returned_requests[OF s ShouldScrape_requests] have "requests w1 = requests w" .
  then show "requests (world_after (main tf w)) = requests w + 1"
    by (simp only: m deliver_requests ScrapeEvents_requests)
next
  assume s: "ShouldScrape tf w = Returned (False, w1)"
  then show m: "main tf w = (case LoadCachedEvents tf w1 of
                     Exited w' \<Rightarrow> Exited w'
                   | Returned (Inl err, w2) \<Rightarrow> Fatalf w2
                   | Returned (Inr evs, w2) \<Rightarrow> Returned (evs, w2))"
    by (simp add: main_def)
  from Returned_requests[OF s ShouldScrape_requests] have "requests w1 = requests w" .
  then show "requests (world_after (main tf w)) = requests w"
    by (simp only: m deliver_requests LoadCachedEvents_requests)
next
  assume forceScrape
  then show m: "scraper_main tf forceScrape n line w
                  = scrape_and_show tf (validate_numEvents n) w"
    by (simp add: scraper_main_def)
  show "requests (world_after (scraper_main tf forceScrape n line w)) = requests w + 1"
    by (simp only: m scrape_and_show_requests)
next
  assume a: "\<not> forceScrape \<and> shouldScrape tf w = Returned (True, w1)"
  then show m: "scraper_main tf forceScrape n line w
                  = scrape_and_show tf (validate_numEvents n) w1"
    by (simp add: scraper_main_def)
  from a have s: "shouldScrape tf w = Returned (True, w1)" by simp
  from Returned_requests[OF s shouldScrape_requests] have "requests w1 = requests w" .
  then show "requests (world_after (scraper_main tf forceScrape n line w)) = requests w + 1"
    by (simp only: m scrape_and_show_requests)
next
  assume a: "\<not> forceScrape \<and> shouldScrape tf w = Returned (False, w1) \<and> ToLower line \<noteq> ''y''"
  then show m: "scraper_main tf forceScrape n line w
        = (case loadCachedEvents tf w1 of
             Exited w' \<Rightarrow> Exited w'
           | Returned (evs, w2) \<Rightarrow> Returned (Cached evs, w2))"
    by (simp add: scraper_main_def)
  from a have s: "shouldScrape tf w = Returned (False, w1)" by simp
  from Returned_requests[OF s shouldScrape_requests] have "requests w1 = requests w" .
  then show "requests (world_after (scraper_main tf forceScrape n line w)) = requests w"
    by (simp only: m show_cached_requests)
next
  assume a: "\<not> forceScrape \<and> shouldScrape tf w = Returned (False, w1) \<and> ToLower line = ''y''"
  then show m: "scraper_main tf forceScrape n line w
                  = scrape_and_show tf (validate_numEvents n) w1"
    by (simp add: scraper_main_def)
  from a have s: "shouldScrape tf w = Returned (False, w1)" by simp
  from Returned_requests[OF s shouldScrape_requests] have "requests w1 = requests w" .
  then show "requests (world_after (scraper_main tf forceScrape n line w)) = requests w + 1"
    by (simp only: m scrape_and_show_requests)
qed

lemma example_cached_same:
  "with_cache_dir (example_cached now) ''/home/u/.cache'' = example_cached now"
  by (simp add: with_cache_dir_def IsNotExist_def os_Stat_def example_cached_def example_world_def
        example_paths)

lemma example_cached_requests: "requests (example_cached now) = 0"
  by (simp add: example_cached_def example_world_def)

lemma example_fresh_ShouldScrape:
  "ShouldScrape example_timefmt (example_cached 1700003600000000000)
     = Returned (False, example_cached 1700003600000000000)"
  by (simp add: ShouldScrape_eq[OF example_cached_ready] example_cached_open
        example_cached_decode example_cached_clock example_cached_same Hour_def)

lemma example_fresh_shouldScrape:
  "shouldScrape example_timefmt (example_cached 1700003600000000000)
     = Returned (False, example_cached 1700003600000000000)"
  by (simp add: shouldScrape_eq[OF example_cached_ready] example_cached_open
        example_cached_decode example_cached_clock example_cached_same Hour_def)

lemma example_fresh_load:
  "returned_events (LoadCachedEvents example_timefmt (example_cached now))
     = Some [example_event ''Quiz'' ''Music'']"
  by (simp add: LoadCachedEvents_eq[OF example_cached_ready] example_cached_open
        example_cached_decode returned_events_def)

theorem orchestration_witness:
  "ShouldScrape example_timefmt (example_cached 1700003600000000000)
     = Returned (False, example_cached 1700003600000000000)
   \<and> returned_value (main example_timefmt (example_cached 1700003600000000000))
       = Some [example_event ''Quiz'' ''Music'']
   \<and> requests (world_after (main example_timefmt (example_cached 1700003600000000000)))
       = requests (example_cached 1700003600000000000)"
proof -
  let ?w = "example_cached 1700003600000000000"
  from orchestration[of example_timefmt ?w ?w, THEN conjunct2, THEN conjunct1]
  have "ShouldScrape example_timefmt ?w = Returned (False, ?w) \<longrightarrow>
      main example_timefmt ?w = (case LoadCachedEvents example_timefmt ?w of
                     Exited w' \<Rightarrow> Exited w'
                   | Returned (Inl err, w2) \<Rightarrow> Fatalf w2
                   | Returned (Inr evs, w2) \<Rightarrow> Returned (evs, w2))
      \<and> requests (world_after (main example_timefmt ?w)) = requests ?w" .
  from this example_fresh_ShouldScrape
  have m: "main example_timefmt ?w = (case LoadCachedEvents example_timefmt ?w of
                     Exited w' \<Rightarrow> Exited w'
                   | Returned (Inl err, w2) \<Rightarrow> Fatalf w2
                   | Returned (Inr evs, w2) \<Rightarrow> Returned (evs, w2))
      \<and> requests (world_after (main example_timefmt ?w)) = requests ?w"
    by (rule mp)
  from returned_events_Some[OF example_fresh_load, of 1700003600000000000] obtain w' where
    "LoadCachedEvents example_timefmt ?w = Returned (Inr [example_event ''Quiz'' ''Music''], w')" ..
  with m have v: "returned_value (main example_timefmt ?w) = Some [example_event ''Quiz'' ''Music'']"
    by (simp add: returned_value_def)
  from m have r: "requests (world_after (main example_timefmt ?w)) = requests ?w"
    by (rule conjunct2)
  from example_fresh_ShouldScrape v r show ?thesis by (intro conjI)
qed

lemma lower_y: "ToLower ''y'' = ''y''"
  by (simp add: ToLower_def lower_byte_def byte_def)

theorem orchestration_counterexample:
  "returned_value (shouldScrape example_timefmt (example_cached 1700003600000000000)) = Some False
   \<and> requests (example_cached 1700003600000000000) = 0
   \<and> requests (world_after
        (scraper_main example_timefmt False 10 ''y'' (example_cached 1700003600000000000))) = 1"
proof -
  let ?w = "example_cached 1700003600000000000"
  have fresh: "returned_value (shouldScrape example_timefmt ?w) = Some False"
    by (simp add: example_fresh_shouldScrape returned_value_def)
  have "scraper_main example_timefmt False 10 ''y'' ?w
          = scrape_and_show example_timefmt (validate_numEvents 10) ?w"
    by (simp add: scraper_main_def example_fresh_shouldScrape lower_y)
  then have "requests (world_after (scraper_main example_timefmt False 10 ''y'' ?w)) = 1"
    by (simp add: scrape_and_show_requests example_cached_requests)
  with fresh show ?thesis by (simp add: example_cached_requests)
qed

subsection \<open>Claim C7: clamping the number of events\<close>

text \<open>
  Claim C7, as amended. The number of events is clamped to the range 2..25 (0 and 1
  become 2, 1000 becomes 25). In main.go it is \<^verbatim>\<open>ScrapeEvents\<close> itself that clamps its
  argument: a call with \<open>n\<close> is the call with the clamped \<open>n\<close>, and it never returns
  more records than the clamped value. In scraper.go it is the caller: whenever \<^verbatim>\<open>main\<close>
  scrapes (the flag \<^verbatim>\<open>-f\<close>, a stale cache, or the answer \<^verbatim>\<open>y\<close>) it calls
  \<^verbatim>\<open>scrapeEvents\<close> with the clamped number. \<^verbatim>\<open>scrapeEvents\<close> does not clamp: it never
  saves more records than the number it is given, and when the map is ranged over key by
  key (every title once) it saves exactly that many, or one for each distinct title when
  there are fewer; so it saves none for 0 and more than 25 when given more.
\<close>

theorem clamp_in_fetcher:
  "2 \<le> validate_numEvents n \<and> validate_numEvents n \<le> 25
   \<and> validate_numEvents 0 = 2 \<and> validate_numEvents 1 = 2 \<and> validate_numEvents 1000 = 25
   \<and> ScrapeEvents tf n w = ScrapeEvents tf (validate_numEvents n) w
   \<and> (\<forall>evs. returned_events (ScrapeEvents tf n w) = Some evs \<longrightarrow>
         int (length evs) \<le> validate_numEvents n)
   \<and> scraper_main tf forceScrape n line w
       = scraper_main tf forceScrape (validate_numEvents n) line w
   \<and> scraper_main tf True n line w = scrape_and_show tf (validate_numEvents n) w
   \<and> (\<forall>w1. shouldScrape tf w = Returned (True, w1) \<longrightarrow>
         scraper_main tf False n line w = scrape_and_show tf (validate_numEvents n) w1)
   \<and> (\<forall>w1. shouldScrape tf w = Returned (False, w1) \<and> ToLower line = ''y'' \<longrightarrow>
         scraper_main tf False n line w = scrape_and_show tf (validate_numEvents n) w1)
   \<and> (\<forall>evs w'. scrapeEvents tf m w = Returned (Some evs, w') \<longrightarrow>
         int (length evs) \<le> max m 0)
   \<and> (\<forall>evs w' code body.
         scrapeEvents tf m w = Returned (Some evs, w') \<and> site w = Response code body
         \<and> distinct (range_order w) \<and> set (names body) \<subseteq> set (range_order w) \<longrightarrow>
         length evs = min (nat m) (card (set (names body))))"
proof (intro conjI allI impI)
  show "2 \<le> validate_numEvents n" "validate_numEvents n \<le> 25"
    by (simp_all add: validate_numEvents_def)
  show "validate_numEvents 0 = 2" "validate_numEvents 1 = 2" "validate_numEvents 1000 = 25"
    by (simp_all add: validate_numEvents_def)
  show "ScrapeEvents tf n w = ScrapeEvents tf (validate_numEvents n) w"
    by (rule ScrapeEvents_clamp)
  show "scraper_main tf forceScrape n line w
          = scraper_main tf forceScrape (validate_numEvents n) line w"
    by (simp only: scraper_main_def validate_numEvents_idem)
  show "scraper_main tf True n line w = scrape_and_show tf (validate_numEvents n) w"
    by (simp add: scraper_main_def)
next
  fix evs
  assume "returned_events (ScrapeEvents tf n w) = Some evs"
  then show "int (length evs) \<le> validate_numEvents n" by (rule ScrapeEvents_length)
next
  fix w1
  assume "shouldScrape tf w = Returned (True, w1)"
  then show "scraper_main tf False n line w = scrape_and_show tf (validate_numEvents n) w1"
    by (simp add: scraper_main_def)
next
  fix w1
  assume "shouldScrape tf w = Returned (False, w1) \<and> ToLower line = ''y''"
  then show "scraper_main tf False n line w = scrape_and_show tf (validate_numEvents n) w1"
    by (simp add: scraper_main_def)
next
  fix evs w'
  assume "scrapeEvents tf m w = Returned (Some evs, w')"
  then show "int (length evs) \<le> max m 0" by (rule scrapeEvents_at_most)
next
  fix evs w' code body
  assume a: "scrapeEvents tf m w = Returned (Some evs, w') \<and> site w = Response code body
         \<and> distinct (range_order w) \<and> set (names body) \<subseteq> set (range_order w)"
  then show "length evs = min (nat m) (card (set (names body)))"
    using scrapeEvents_count[of tf m w evs w' code body] by simp
qed

theorem clamp_in_fetcher_witness:
  "returned_events (ScrapeEvents example_timefmt 1000 example_world)
     = Some [example_event ''Quiz'' ''Music'', example_event ''Karaoke'' ''uncategorized'',
             example_event ''Film'' ''Arts, Film'']
   \<and> int (length [example_event ''Quiz'' ''Music'', example_event ''Karaoke'' ''uncategorized'',
                   example_event ''Film'' ''Arts, Film'']) \<le> validate_numEvents 1000
   \<and> distinct (range_order example_letters)
   \<and> map_option (map_option length)
        (returned_value (scrapeEvents example_timefmt 1000 example_letters)) = Some (Some 26)
   \<and> map_option (map_option length)
        (returned_value (scrapeEvents example_timefmt 0 example_letters)) = Some (Some 0)
   \<and> scraper_main example_timefmt False 1000 ''n'' example_world
       = scrape_and_show example_timefmt 25 (with_cache_dir example_world ''/home/u/.cache'')
   \<and> scraper_main example_timefmt False 0 ''Y'' (example_cached 1700003600000000000)
       = scrape_and_show example_timefmt 2 (example_cached 1700003600000000000)"
proof -
  let ?evs = "[example_event ''Quiz'' ''Music'', example_event ''Karaoke'' ''uncategorized'',
               example_event ''Film'' ''Arts, Film'']"
  let ?page = "example_draft_page\<lparr>names := map (\<lambda>c. [c]) ''abcdefghijklmnopqrstuvwxyz''\<rparr>"
  have r: "returned_events (ScrapeEvents example_timefmt 1000 example_world) = Some ?evs"
    by (simp add: example_scrape example_records validate_numEvents_def)
  from clamp_in_fetcher[where n = 1000 and tf = example_timefmt and w = example_world]
  have "\<forall>evs. returned_events (ScrapeEvents example_timefmt 1000 example_world) = Some evs
          \<longrightarrow> int (length evs) \<le> validate_numEvents 1000"
    by (rule conjunct2[THEN conjunct2, THEN conjunct2, THEN conjunct2, THEN conjunct2,
          THEN conjunct2, THEN conjunct1])
  then have "returned_events (ScrapeEvents example_timefmt 1000 example_world) = Some ?evs
          \<longrightarrow> int (length ?evs) \<le> validate_numEvents 1000"
    by (rule spec)
  from this r have main: "int (length ?evs) \<le> validate_numEvents 1000" by (rule mp)
  from scrapeEvents_can_save[OF example_letters_facts(1) _ example_letters_facts(2), of 1000]
  obtain w' evs where big: "scrapeEvents example_timefmt 1000 example_letters = Returned (Some evs, w')"
    by auto
  from scrapeEvents_can_save[OF example_letters_facts(1) _ example_letters_facts(2), of 0]
  obtain w'' evs' where none: "scrapeEvents example_timefmt 0 example_letters = Returned (Some evs', w'')"
    by auto
  note count = clamp_in_fetcher[where tf = example_timefmt and w = example_letters,
      THEN conjunct2, THEN conjunct2, THEN conjunct2, THEN conjunct2, THEN conjunct2,
      THEN conjunct2, THEN conjunct2, THEN conjunct2, THEN conjunct2, THEN conjunct2,
      THEN conjunct2, THEN conjunct2, THEN spec, THEN spec, THEN spec, THEN spec, THEN mp]
  have "length evs = min (nat 1000) (card (set (names ?page)))"
    using big example_letters_facts(1) example_letters_facts(4) example_letters_names
    by (intro count conjI)
  then have n26: "length evs = 26"
    by (simp add: example_letters_facts(5))
  have "length evs' = min (nat 0) (card (set (names ?page)))"
    using none example_letters_facts(1) example_letters_facts(4) example_letters_names
    by (intro count conjI)
  then have n0: "length evs' = 0" by simp
  have "shouldScrape example_timefmt example_world
          = Returned (True, with_cache_dir example_world ''/home/u/.cache'')"
    by (simp add: shouldScrape_eq[OF example_world_ready] os_Open_def example_world_absent)
  with clamp_in_fetcher[where tf = example_timefmt and w = example_world and n = 1000
      and line = "''n''",
      THEN conjunct2, THEN conjunct2, THEN conjunct2, THEN conjunct2, THEN conjunct2,
      THEN conjunct2, THEN conjunct2, THEN conjunct2, THEN conjunct2, THEN conjunct1,
      THEN spec]
  have "scraper_main example_timefmt False 1000 ''n'' example_world
          = scrape_and_show example_timefmt (validate_numEvents 1000)
              (with_cache_dir example_world ''/home/u/.cache'')"
    by (rule mp)
  then have stale: "scraper_main example_timefmt False 1000 ''n'' example_world
          = scrape_and_show example_timefmt 25 (with_cache_dir example_world ''/home/u/.cache'')"
    by (simp add: validate_numEvents_def)
  have upper_y: "ToLower ''Y'' = ''y''" by code_simp
  have "shouldScrape example_timefmt (example_cached 1700003600000000000)
          = Returned (False, example_cached 1700003600000000000)
        \<and> ToLower ''Y'' = ''y''"
    by (simp only: example_fresh_shouldScrape upper_y)
  with clamp_in_fetcher[where tf = example_timefmt and w = "example_cached 1700003600000000000"
      and n = 0 and line = "''Y''",
      THEN conjunct2, THEN conjunct2, THEN conjunct2, THEN conjunct2, THEN conjunct2,
      THEN conjunct2, THEN conjunct2, THEN conjunct2, THEN conjunct2, THEN conjunct2,
      THEN conjunct1, THEN spec]
  have "scraper_main example_timefmt False 0 ''Y'' (example_cached 1700003600000000000)
          = scrape_and_show example_timefmt (validate_numEvents 0)
              (example_cached 1700003600000000000)"
    by (rule mp)
  then have asked: "scraper_main example_timefmt False 0 ''Y'' (example_cached 1700003600000000000)
          = scrape_and_show example_timefmt 2 (example_cached 1700003600000000000)"
    by (simp add: validate_numEvents_def)
  from r main n26 n0 big none example_letters_facts(4) stale asked show ?thesis
    by (simp add: returned_value_def)
qed

theorem caller_clamp_counterexample:
  "returned_events (ScrapeEvents example_timefmt 0 example_world)
     = Some [example_event ''Quiz'' ''Music'', example_event ''Karaoke'' ''uncategorized'']
   \<and> events (handleOnHTML (onEventItem 0) (event_items example_page) scrape0) = []"
  by (simp add: example_scrape example_records validate_numEvents_def traversal_events)

subsection \<open>Claim C3: the cap on the number of records\<close>




subsection \<open>Claim C10: a timestamp in the future\<close>

text \<open>
  Claim C10. For a cache that is there (the cache directory exists, the file opens and
  decodes) with a timestamp later than the clock, the elapsed time is negative, so less
  than 12 hours: \<^verbatim>\<open>ShouldScrape\<close> returns false, the cache counts as fresh.
\<close>

theorem future_timestamp_fresh:
  assumes "UserCacheDir w = Some root"
    and "appCacheDir root \<in> dirs w"
    and "os_Open (cacheFile root) w = Inr c"
    and "Decode tf c = Inr d"
    and "clock w < LastScraped d"
  shows "Since w (LastScraped d) < 0
       \<and> Since w (LastScraped d) < 12 * Hour
       \<and> ShouldScrape tf w = Returned (False, w)"
proof -
  from assms(1,2) have ready: "cache_dir_ready w root"
    by (simp add: cache_dir_ready_def IsNotExist_def os_Stat_def)
  from assms(2) have same: "with_cache_dir w root = w"
    by (simp add: with_cache_dir_def IsNotExist_def os_Stat_def)
  from assms(5) have neg: "Since w (LastScraped d) < 0"
    by (simp add: Since_def Sub_def Let_def maxDuration_def minDuration_def)
  moreover have "(0::int) < 12 * Hour" by (simp add: Hour_def)
  ultimately have lt: "Since w (LastScraped d) < 12 * Hour" by linarith
  then have "clock w - LastScraped d < 12 * Hour" by (simp only: Since_fresh_iff)
  with assms(3,4) have "ShouldScrape tf w = Returned (False, w)"
    by (simp add: ShouldScrape_eq[OF ready] same)
  with neg lt show ?thesis by simp
qed

lemma example_cached_root: "UserCacheDir (example_cached now) = Some ''/home/u/.cache''"
  by (simp add: example_cached_def example_world_def)

lemma example_cached_dir: "appCacheDir ''/home/u/.cache'' \<in> dirs (example_cached now)"
  by (simp add: example_cached_def example_paths)

theorem future_timestamp_fresh_witness:
  "UserCacheDir (example_cached 1600000000000000000) = Some ''/home/u/.cache''
   \<and> appCacheDir ''/home/u/.cache'' \<in> dirs (example_cached 1600000000000000000)
   \<and> clock (example_cached 1600000000000000000) < 1700000000000000000
   \<and> returned_value (ShouldScrape example_timefmt (example_cached 1600000000000000000))
       = Some False"
proof -
  let ?d = "\<lparr>LastScraped = 1700000000000000000, Events = [example_event ''Quiz'' ''Music'']\<rparr>"
  have future: "clock (example_cached 1600000000000000000) < LastScraped ?d"
    by (simp add: example_cached_clock)
  from future_timestamp_fresh[OF example_cached_root example_cached_dir example_cached_open
      example_cached_decode future]
  have "ShouldScrape example_timefmt (example_cached 1600000000000000000)
          = Returned (False, example_cached 1600000000000000000)"
    by (rule conjunct2[THEN conjunct2])
  then show ?thesis
    using future by (simp add: example_cached_root example_cached_dir returned_value_def)
qed

end
